theory Spec2Isabelle
  imports Main
begin

section \<open>Rust bindings for a oneof: \<^verbatim>\<open>compiler/rust/oneof.cc\<close>\<close>

text \<open>
  The file generates, for one oneof of a message, three Rust enums (the view enum, the
  mut enum and the case enum), the accessors that dispatch on the case reported by the
  kernel, the \<^verbatim>\<open>extern "C"\<close> declaration of the case thunk and the thunk itself.
  Every function of the file is embedded here: text is a list of lines, an abort
  (\<^verbatim>\<open>ABSL_LOG(FATAL)\<close>) is the left summand of the result.
\<close>

subsection \<open>Descriptors\<close>

text \<open>
  \<^verbatim>\<open>RustFieldType\<close> has the eleven enumerators the two switches list. A C++ enum can
  hold a value that is none of its enumerators, and then neither switch returns:
  \<open>UNLISTED\<close> stands for every such value.
\<close>

datatype RustFieldType =
  INT32 | INT64 | UINT32 | UINT64 | FLOAT | DOUBLE | BOOL
  | BYTES | STRING | MESSAGE | ENUM | UNLISTED

text \<open>
  What the file reads of a \<^verbatim>\<open>FieldDescriptor\<close>: \<^verbatim>\<open>name()\<close>, \<^verbatim>\<open>number()\<close>,
  \<^verbatim>\<open>options().has_ctype()\<close>, \<^verbatim>\<open>type_name()\<close>, and the field's type through
  \<^verbatim>\<open>GetRustFieldType\<close> (declared in \<^verbatim>\<open>rust_field_type.h\<close>, called once on
  \<^verbatim>\<open>field.type()\<close> and once on \<^verbatim>\<open>field\<close>): \<open>rust_field_type\<close> is the value both
  calls yield.
\<close>

record FieldDescriptor =
  name :: string
  number :: int
  has_ctype :: bool
  rust_field_type :: RustFieldType
  type_name :: string

text \<open>
  A \<^verbatim>\<open>OneofDescriptor\<close>: \<^verbatim>\<open>name()\<close>, \<^verbatim>\<open>containing_type()\<close> (here the message's
  full name) and the fields in declaration order, read with \<^verbatim>\<open>field_count()\<close> and
  \<^verbatim>\<open>field(i)\<close>.
\<close>

record OneofDescriptor =
  oneof_name :: string
  containing_type :: string
  oneof_fields :: "FieldDescriptor list"

definition field_count :: "OneofDescriptor \<Rightarrow> nat" where
  "field_count oneof = length (oneof_fields oneof)"

definition field :: "OneofDescriptor \<Rightarrow> nat \<Rightarrow> FieldDescriptor" where
  "field oneof i = oneof_fields oneof ! i"

text \<open>
  \<^verbatim>\<open>AccessorCase\<close> (\<^verbatim>\<open>accessors/accessor_case.h\<close>): the file compares it with
  \<^verbatim>\<open>VIEW\<close> only; \<open>OWNED\<close> and \<open>MUT\<close> are the cases that are not \<^verbatim>\<open>VIEW\<close>.
\<close>

datatype AccessorCase = OWNED | MUT | VIEW

datatype error = Fatal string

subsection \<open>The printer\<close>

text \<open>
  A substitution is a string or a callback. A callback of the source runs when the
  printer meets its variable; here it is the result of that run: the lines it prints,
  or the abort it ends in. A callback that is never met is never looked at.
\<close>

datatype sub = Text string | Callback "error + string list"

type_synonym vars = "(string \<times> sub) list"

text \<open>
  The \<^verbatim>\<open>Context\<close> carries the printer; \<open>printer_vars\<close> are the variables its callers
  have already bound (\<^verbatim>\<open>$Msg$\<close>, \<^verbatim>\<open>$pbi$\<close>).
\<close>

record Context =
  printer_vars :: vars

text \<open>
  The helpers of \<^verbatim>\<open>naming.h\<close> and \<^verbatim>\<open>cpp/helpers.h\<close> that the file calls are
  parameters of the embedding.
\<close>

record Naming =
  OneofViewEnumRsName :: "OneofDescriptor \<Rightarrow> string"
  OneofMutEnumRsName :: "OneofDescriptor \<Rightarrow> string"
  OneofCaseEnumRsName :: "OneofDescriptor \<Rightarrow> string"
  OneofCaseRsName :: "FieldDescriptor \<Rightarrow> string"
  RsSafeName :: "string \<Rightarrow> string"
  RsTypePath :: "Context \<Rightarrow> FieldDescriptor \<Rightarrow> string"
  ThunkName :: "Context \<Rightarrow> OneofDescriptor \<Rightarrow> string \<Rightarrow> string"
  QualifiedClassName :: "string \<Rightarrow> string"

text \<open>
  A format is kept line by line, without the indentation of its raw string literal. A
  line is a sequence of literal text and \<^verbatim>\<open>$variable$\<close>s, or a callback's variable
  standing alone.
\<close>

datatype piece = Lit string | Var string

datatype fline = Line "piece list" | Block string

definition bind :: "error + 'a \<Rightarrow> ('a \<Rightarrow> error + 'b) \<Rightarrow> error + 'b" where
  "bind m f = (case m of Inl e \<Rightarrow> Inl e | Inr x \<Rightarrow> f x)"

text \<open>
  Modelled from the spec: the text-emission engine (\<^verbatim>\<open>Context::Emit\<close>, the
  \<^verbatim>\<open>io::Printer\<close>) is an external collaborator of this file. It replaces each variable
  by the innermost binding of its name, runs a callback where its variable stands, and
  aborts on a variable that is not bound.
\<close>

fun Emit_line :: "vars \<Rightarrow> piece list \<Rightarrow> error + string" where
  "Emit_line env [] = Inr []"
| "Emit_line env (Lit s # ps) = bind (Emit_line env ps) (\<lambda>r. Inr (s @ r))"
| "Emit_line env (Var x # ps) =
     (case map_of env x of
        Some (Text s) \<Rightarrow> bind (Emit_line env ps) (\<lambda>r. Inr (s @ r))
      | _ \<Rightarrow> Inl (Fatal (''undefined variable: '' @ x)))"

fun Emit :: "vars \<Rightarrow> fline list \<Rightarrow> error + string list" where
  "Emit env [] = Inr []"
| "Emit env (Line ps # ls) =
     bind (Emit_line env ps) (\<lambda>l. bind (Emit env ls) (\<lambda>r. Inr (l # r)))"
| "Emit env (Block x # ls) =
     (case map_of env x of
        Some (Callback c) \<Rightarrow> bind c (\<lambda>b. bind (Emit env ls) (\<lambda>r. Inr (b @ r)))
      | _ \<Rightarrow> Inl (Fatal (''undefined variable: '' @ x)))"

text \<open>The variables that a format reads, in the order in which the printer meets them.\<close>

fun line_vars :: "piece list \<Rightarrow> string list" where
  "line_vars [] = []"
| "line_vars (Lit s # ps) = line_vars ps"
| "line_vars (Var x # ps) = x # line_vars ps"

fun format_vars :: "fline list \<Rightarrow> string list" where
  "format_vars [] = []"
| "format_vars (Line ps # ls) = line_vars ps @ format_vars ls"
| "format_vars (Block x # ls) = x # format_vars ls"

subsection \<open>\<^verbatim>\<open>std::to_string\<close>\<close>

definition digit :: "nat \<Rightarrow> char" where
  "digit d = ''0123456789'' ! d"

function digits :: "nat \<Rightarrow> string" where
  "digits n = (if n < 10 then [digit n] else digits (n div 10) @ [digit (n mod 10)])"
  by pat_completeness auto
termination
  by (relation "measure id") auto

definition to_string :: "int \<Rightarrow> string" where
  "to_string k = (if k < 0 then CHR ''-'' # digits (nat (- k)) else digits (nat k))"

subsection \<open>The type names\<close>

definition RsTypeNameView :: "Naming \<Rightarrow> Context \<Rightarrow> FieldDescriptor \<Rightarrow> error + string" where
  "RsTypeNameView nm ctx fd =
     (if has_ctype fd then Inr ''''
      else case rust_field_type fd of
        INT32 \<Rightarrow> Inr (RsTypePath nm ctx fd)
      | INT64 \<Rightarrow> Inr (RsTypePath nm ctx fd)
      | UINT32 \<Rightarrow> Inr (RsTypePath nm ctx fd)
      | UINT64 \<Rightarrow> Inr (RsTypePath nm ctx fd)
      | FLOAT \<Rightarrow> Inr (RsTypePath nm ctx fd)
      | DOUBLE \<Rightarrow> Inr (RsTypePath nm ctx fd)
      | BOOL \<Rightarrow> Inr (RsTypePath nm ctx fd)
      | BYTES \<Rightarrow> Inr ''&'msg [u8]''
      | STRING \<Rightarrow> Inr ''&'msg ::__pb::ProtoStr''
      | MESSAGE \<Rightarrow> Inr (''::__pb::View<'msg, '' @ RsTypePath nm ctx fd @ ''>'')
      | ENUM \<Rightarrow> Inr (''::__pb::View<'msg, '' @ RsTypePath nm ctx fd @ ''>'')
      | UNLISTED \<Rightarrow> Inl (Fatal (''Unexpected field type: '' @ type_name fd)))"

definition RsTypeNameMut :: "Naming \<Rightarrow> Context \<Rightarrow> FieldDescriptor \<Rightarrow> error + string" where
  "RsTypeNameMut nm ctx fd =
     (if has_ctype fd then Inr ''''
      else case rust_field_type fd of
        INT32 \<Rightarrow> Inr (''::__pb::PrimitiveMut<'msg, '' @ RsTypePath nm ctx fd @ ''>'')
      | INT64 \<Rightarrow> Inr (''::__pb::PrimitiveMut<'msg, '' @ RsTypePath nm ctx fd @ ''>'')
      | UINT32 \<Rightarrow> Inr (''::__pb::PrimitiveMut<'msg, '' @ RsTypePath nm ctx fd @ ''>'')
      | UINT64 \<Rightarrow> Inr (''::__pb::PrimitiveMut<'msg, '' @ RsTypePath nm ctx fd @ ''>'')
      | FLOAT \<Rightarrow> Inr (''::__pb::PrimitiveMut<'msg, '' @ RsTypePath nm ctx fd @ ''>'')
      | DOUBLE \<Rightarrow> Inr (''::__pb::PrimitiveMut<'msg, '' @ RsTypePath nm ctx fd @ ''>'')
      | BOOL \<Rightarrow> Inr (''::__pb::PrimitiveMut<'msg, '' @ RsTypePath nm ctx fd @ ''>'')
      | BYTES \<Rightarrow> Inr ''::__pb::BytesMut<'msg>''
      | STRING \<Rightarrow> Inr ''::__pb::ProtoStrMut<'msg>''
      | MESSAGE \<Rightarrow> Inr (''::__pb::Mut<'msg, '' @ RsTypePath nm ctx fd @ ''>'')
      | ENUM \<Rightarrow> Inr (''::__pb::Mut<'msg, '' @ RsTypePath nm ctx fd @ ''>'')
      | UNLISTED \<Rightarrow> Inl (Fatal (''Unexpected field type: '' @ type_name fd)))"

subsection \<open>\<^verbatim>\<open>GenerateOneofDefinition\<close>\<close>

text \<open>
  The format of one variant of the view enum and of the mut enum, the same raw string in
  both loops.
\<close>

definition variant_format :: "fline list" where
  "variant_format =
     [Line [Var ''name'', Lit ''('', Var ''type'', Lit '') = '', Var ''number'', Lit '','']]"

definition case_format :: "fline list" where
  "case_format = [Line [Var ''name'', Lit '' = '', Var ''number'', Lit '','']]"

definition enums_format :: "fline list" where
  "enums_format =
     [Line [Lit ''#[non_exhaustive]''],
      Line [Lit ''#[derive(Debug, Clone, Copy)]''],
      Line [Lit ''#[allow(dead_code)]''],
      Line [Lit ''#[repr(isize)]''],
      Line [Lit ''pub enum '', Var ''view_enum_name'', Lit ''<'msg> {''],
      Block ''view_fields'',
      Line [],
      Line [Lit ''#[allow(non_camel_case_types)]''],
      Line [Lit ''not_set(std::marker::PhantomData<&'msg ()>) = 0''],
      Line [Lit ''}''],
      Line [],
      Line [Lit ''#[non_exhaustive]''],
      Line [Lit ''#[derive(Debug)]''],
      Line [Lit ''#[allow(dead_code)]''],
      Line [Lit ''#[repr(isize)]''],
      Line [Lit ''pub enum '', Var ''mut_enum_name'', Lit ''<'msg> {''],
      Block ''mut_fields'',
      Line [],
      Line [Lit ''#[allow(non_camel_case_types)]''],
      Line [Lit ''not_set(std::marker::PhantomData<&'msg ()>) = 0''],
      Line [Lit ''}''],
      Line []]"

definition case_enum_format :: "fline list" where
  "case_enum_format =
     [Line [Lit ''#[repr(C)]''],
      Line [Lit ''#[derive(Debug, Copy, Clone, PartialEq, Eq)]''],
      Line [Lit ''#[allow(dead_code)]''],
      Line [Lit ''pub(super) enum '', Var ''case_enum_name'', Lit '' {''],
      Block ''cases'',
      Line [],
      Line [Lit ''#[allow(non_camel_case_types)]''],
      Line [Lit ''not_set = 0''],
      Line [Lit ''}''],
      Line []]"

text \<open>
  The three loops \<^verbatim>\<open>for (int i = 0; i < oneof.field_count(); ++i)\<close>, from index \<open>i\<close>
  on. \<open>env\<close> holds the variables bound around the callback, which the printer still
  sees inside it.
\<close>

function view_fields ::
  "Naming \<Rightarrow> Context \<Rightarrow> vars \<Rightarrow> OneofDescriptor \<Rightarrow> nat \<Rightarrow> error + string list" where
  "view_fields nm ctx env oneof i =
     (if i < field_count oneof then
        (case RsTypeNameView nm ctx (field oneof i) of
           Inl e \<Rightarrow> Inl e
         | Inr rs_type \<Rightarrow>
             if rs_type = [] then view_fields nm ctx env oneof (Suc i)
             else
               (case Emit ([(''name'', Text (OneofCaseRsName nm (field oneof i))),
                            (''type'', Text rs_type),
                            (''number'', Text (to_string (number (field oneof i))))] @ env)
                       variant_format of
                  Inl e \<Rightarrow> Inl e
                | Inr a \<Rightarrow>
                    (case view_fields nm ctx env oneof (Suc i) of
                       Inl e \<Rightarrow> Inl e
                     | Inr b \<Rightarrow> Inr (a @ b))))
      else Inr [])"
  by pat_completeness auto
termination
  by (relation "measure (\<lambda>(nm, ctx, env, oneof, i). field_count oneof - i)") auto

function mut_fields ::
  "Naming \<Rightarrow> Context \<Rightarrow> vars \<Rightarrow> OneofDescriptor \<Rightarrow> nat \<Rightarrow> error + string list" where
  "mut_fields nm ctx env oneof i =
     (if i < field_count oneof then
        (case RsTypeNameMut nm ctx (field oneof i) of
           Inl e \<Rightarrow> Inl e
         | Inr rs_type \<Rightarrow>
             if rs_type = [] then mut_fields nm ctx env oneof (Suc i)
             else
               (case Emit ([(''name'', Text (OneofCaseRsName nm (field oneof i))),
                            (''type'', Text rs_type),
                            (''number'', Text (to_string (number (field oneof i))))] @ env)
                       variant_format of
                  Inl e \<Rightarrow> Inl e
                | Inr a \<Rightarrow>
                    (case mut_fields nm ctx env oneof (Suc i) of
                       Inl e \<Rightarrow> Inl e
                     | Inr b \<Rightarrow> Inr (a @ b))))
      else Inr [])"
  by pat_completeness auto
termination
  by (relation "measure (\<lambda>(nm, ctx, env, oneof, i). field_count oneof - i)") auto

function cases ::
  "Naming \<Rightarrow> Context \<Rightarrow> vars \<Rightarrow> OneofDescriptor \<Rightarrow> nat \<Rightarrow> error + string list" where
  "cases nm ctx env oneof i =
     (if i < field_count oneof then
        (case Emit ([(''name'', Text (OneofCaseRsName nm (field oneof i))),
                     (''number'', Text (to_string (number (field oneof i))))] @ env)
                case_format of
           Inl e \<Rightarrow> Inl e
         | Inr a \<Rightarrow>
             (case cases nm ctx env oneof (Suc i) of
                Inl e \<Rightarrow> Inl e
              | Inr b \<Rightarrow> Inr (a @ b)))
      else Inr [])"
  by pat_completeness auto
termination
  by (relation "measure (\<lambda>(nm, ctx, env, oneof, i). field_count oneof - i)") auto

text \<open>
  The two \<^verbatim>\<open>ctx.Emit\<close> calls of \<^verbatim>\<open>GenerateOneofDefinition\<close>: the view enum with the
  mut enum, then the case enum. The function has no parameter but the context and the
  oneof.
\<close>

definition GenerateOneofDefinition ::
  "Naming \<Rightarrow> Context \<Rightarrow> OneofDescriptor \<Rightarrow> error + string list" where
  "GenerateOneofDefinition nm ctx oneof =
     (let names = [(''view_enum_name'', Text (OneofViewEnumRsName nm oneof)),
                   (''mut_enum_name'', Text (OneofMutEnumRsName nm oneof))] @ printer_vars ctx;
          case_names = [(''case_enum_name'', Text (OneofCaseEnumRsName nm oneof))]
                       @ printer_vars ctx
      in bind (Emit ([(''view_fields'', Callback (view_fields nm ctx names oneof 0)),
                      (''mut_fields'', Callback (mut_fields nm ctx names oneof 0))] @ names)
                 enums_format)
           (\<lambda>enums.
              bind (Emit ([(''cases'', Callback (cases nm ctx case_names oneof 0))] @ case_names)
                      case_enum_format)
                (\<lambda>case_enum. Inr (enums @ case_enum))))"

subsection \<open>\<^verbatim>\<open>GenerateOneofAccessors\<close>\<close>

definition view_case_format :: "fline list" where
  "view_case_format =
     [Line [Var ''Msg'', Lit ''_::'', Var ''case_enum_name'', Lit ''::'', Var ''case'', Lit '' =>''],
      Line [Var ''Msg'', Lit ''_::'', Var ''view_enum_name'', Lit ''::'', Var ''case'',
            Lit ''(self.'', Var ''rs_getter'', Lit ''()),'']]"

definition mut_case_format :: "fline list" where
  "mut_case_format =
     [Line [Var ''Msg'', Lit ''_::'', Var ''case_enum_name'', Lit ''::'', Var ''case'', Lit '' =>''],
      Line [Var ''Msg'', Lit ''_::'', Var ''mut_enum_name'', Lit ''::'', Var ''case'', Lit ''(''],
      Line [Lit ''self.'', Var ''rs_mut_getter'', Lit ''().try_into_mut().unwrap()),'']]"

definition getter_format :: "fline list" where
  "getter_format =
     [Line [Lit ''pub fn '', Var ''oneof_name'', Lit ''(&self) -> '', Var ''Msg'', Lit ''_::'',
            Var ''view_enum_name'', Lit '' {''],
      Line [Lit ''match unsafe { '', Var ''case_thunk'', Lit ''(self.raw_msg()) } {''],
      Block ''view_cases'',
      Line [Lit ''_ => '', Var ''Msg'', Lit ''_::'', Var ''view_enum_name'',
            Lit ''::not_set(std::marker::PhantomData)''],
      Line [Lit ''}''],
      Line [Lit ''}'']]"

definition getter_mut_format :: "fline list" where
  "getter_mut_format =
     [Line [Lit ''pub fn '', Var ''oneof_name'', Lit ''_mut(&mut self) -> '', Var ''Msg'',
            Lit ''_::'', Var ''mut_enum_name'', Lit '' {''],
      Line [Lit ''match unsafe { '', Var ''case_thunk'', Lit ''(self.raw_msg()) } {''],
      Block ''mut_cases'',
      Line [Lit ''_ => '', Var ''Msg'', Lit ''_::'', Var ''mut_enum_name'',
            Lit ''::not_set(std::marker::PhantomData)''],
      Line [Lit ''}''],
      Line [Lit ''}'']]"

function view_cases ::
  "Naming \<Rightarrow> Context \<Rightarrow> vars \<Rightarrow> OneofDescriptor \<Rightarrow> nat \<Rightarrow> error + string list" where
  "view_cases nm ctx env oneof i =
     (if i < field_count oneof then
        (case RsTypeNameView nm ctx (field oneof i) of
           Inl e \<Rightarrow> Inl e
         | Inr rs_type \<Rightarrow>
             if rs_type = [] then view_cases nm ctx env oneof (Suc i)
             else
               (case Emit ([(''case'', Text (OneofCaseRsName nm (field oneof i))),
                            (''rs_getter'', Text (RsSafeName nm (name (field oneof i)))),
                            (''type'', Text rs_type)] @ env)
                       view_case_format of
                  Inl e \<Rightarrow> Inl e
                | Inr a \<Rightarrow>
                    (case view_cases nm ctx env oneof (Suc i) of
                       Inl e \<Rightarrow> Inl e
                     | Inr b \<Rightarrow> Inr (a @ b))))
      else Inr [])"
  by pat_completeness auto
termination
  by (relation "measure (\<lambda>(nm, ctx, env, oneof, i). field_count oneof - i)") auto

function mut_cases ::
  "Naming \<Rightarrow> Context \<Rightarrow> vars \<Rightarrow> OneofDescriptor \<Rightarrow> nat \<Rightarrow> error + string list" where
  "mut_cases nm ctx env oneof i =
     (if i < field_count oneof then
        (case RsTypeNameMut nm ctx (field oneof i) of
           Inl e \<Rightarrow> Inl e
         | Inr rs_type \<Rightarrow>
             if rs_type = [] then mut_cases nm ctx env oneof (Suc i)
             else
               (case Emit ([(''case'', Text (OneofCaseRsName nm (field oneof i))),
                            (''rs_mut_getter'', Text (name (field oneof i) @ ''_mut'')),
                            (''type'', Text rs_type)] @ env)
                       mut_case_format of
                  Inl e \<Rightarrow> Inl e
                | Inr a \<Rightarrow>
                    (case mut_cases nm ctx env oneof (Suc i) of
                       Inl e \<Rightarrow> Inl e
                     | Inr b \<Rightarrow> Inr (a @ b))))
      else Inr [])"
  by pat_completeness auto
termination
  by (relation "measure (\<lambda>(nm, ctx, env, oneof, i). field_count oneof - i)") auto

text \<open>
  The variables of the one \<^verbatim>\<open>ctx.Emit\<close> call are built inside out, so that each
  callback is given the variables its formats read: the five names, then the two lists
  of match arms, then the two accessors. The \<open>getter_mut\<close> callback returns at once for
  \<^verbatim>\<open>AccessorCase::VIEW\<close>.
\<close>

definition GenerateOneofAccessors ::
  "Naming \<Rightarrow> Context \<Rightarrow> OneofDescriptor \<Rightarrow> AccessorCase \<Rightarrow> error + string list" where
  "GenerateOneofAccessors nm ctx oneof accessor_case =
     (let names = [(''oneof_name'', Text (RsSafeName nm (oneof_name oneof))),
                   (''view_enum_name'', Text (OneofViewEnumRsName nm oneof)),
                   (''mut_enum_name'', Text (OneofMutEnumRsName nm oneof)),
                   (''case_enum_name'', Text (OneofCaseEnumRsName nm oneof)),
                   (''case_thunk'', Text (ThunkName nm ctx oneof ''case''))] @ printer_vars ctx;
          arms = [(''view_cases'', Callback (view_cases nm ctx names oneof 0)),
                  (''mut_cases'', Callback (mut_cases nm ctx names oneof 0))] @ names;
          getter = Emit arms getter_format;
          getter_mut = (if accessor_case = VIEW then Inr [] else Emit arms getter_mut_format)
      in Emit ([(''getter'', Callback getter), (''getter_mut'', Callback getter_mut)] @ arms)
           [Block ''getter'', Block ''getter_mut''])"

subsection \<open>\<^verbatim>\<open>GenerateOneofExternC\<close> and \<^verbatim>\<open>GenerateOneofThunkCc\<close>\<close>

definition GenerateOneofExternC ::
  "Naming \<Rightarrow> Context \<Rightarrow> OneofDescriptor \<Rightarrow> error + string list" where
  "GenerateOneofExternC nm ctx oneof =
     Emit ([(''case_enum_rs_name'', Text (OneofCaseEnumRsName nm oneof)),
            (''case_thunk'', Text (ThunkName nm ctx oneof ''case''))] @ printer_vars ctx)
       [Line [Lit ''fn '', Var ''case_thunk'', Lit ''(raw_msg: '', Var ''pbi'',
              Lit ''::RawMessage) -> '', Var ''Msg'', Lit ''_::'', Var ''case_enum_rs_name'',
              Lit '';'']]"

definition GenerateOneofThunkCc ::
  "Naming \<Rightarrow> Context \<Rightarrow> OneofDescriptor \<Rightarrow> error + string list" where
  "GenerateOneofThunkCc nm ctx oneof =
     Emit ([(''oneof_name'', Text (oneof_name oneof)),
            (''case_enum_name'', Text (OneofCaseEnumRsName nm oneof)),
            (''case_thunk'', Text (ThunkName nm ctx oneof ''case'')),
            (''QualifiedMsg'', Text (QualifiedClassName nm (containing_type oneof)))]
           @ printer_vars ctx)
       [Line [Var ''QualifiedMsg'', Lit ''::'', Var ''case_enum_name'', Lit '' '',
              Var ''case_thunk'', Lit ''('', Var ''QualifiedMsg'', Lit ''* msg) {''],
        Line [Lit ''return msg->'', Var ''oneof_name'', Lit ''_case();''],
        Line [Lit ''}'']]"

subsection \<open>The generated code, read back\<close>

text \<open>
  The printed enums and accessors are read as data: a variant of a union as its name, its
  payload type and its discriminant, an entry of the case enum as its name and its
  discriminant, an arm of a match as the name \<^verbatim>\<open>$case$\<close> and the accessor the arm
  calls. The functions below print such data, line for line as the formats do; the
  lemmas show that what the generators print has this shape.
\<close>

definition variant_line :: "string \<times> string \<times> int \<Rightarrow> string" where
  "variant_line v = fst v @ ''('' @ fst (snd v) @ '') = '' @ to_string (snd (snd v)) @ '',''"

definition case_line :: "string \<times> int \<Rightarrow> string" where
  "case_line e = fst e @ '' = '' @ to_string (snd e) @ '',''"

definition view_enum_lines :: "string \<Rightarrow> string list \<Rightarrow> string list" where
  "view_enum_lines enum_name variants =
     [''#[non_exhaustive]'',
      ''#[derive(Debug, Clone, Copy)]'',
      ''#[allow(dead_code)]'',
      ''#[repr(isize)]'',
      ''pub enum '' @ enum_name @ ''<'msg> {'']
     @ variants @
     ['''',
      ''#[allow(non_camel_case_types)]'',
      ''not_set(std::marker::PhantomData<&'msg ()>) = 0'',
      ''}'',
      '''']"

definition mut_enum_lines :: "string \<Rightarrow> string list \<Rightarrow> string list" where
  "mut_enum_lines enum_name variants =
     [''#[non_exhaustive]'',
      ''#[derive(Debug)]'',
      ''#[allow(dead_code)]'',
      ''#[repr(isize)]'',
      ''pub enum '' @ enum_name @ ''<'msg> {'']
     @ variants @
     ['''',
      ''#[allow(non_camel_case_types)]'',
      ''not_set(std::marker::PhantomData<&'msg ()>) = 0'',
      ''}'',
      '''']"

definition case_enum_lines :: "string \<Rightarrow> string list \<Rightarrow> string list" where
  "case_enum_lines enum_name entries =
     [''#[repr(C)]'',
      ''#[derive(Debug, Copy, Clone, PartialEq, Eq)]'',
      ''#[allow(dead_code)]'',
      ''pub(super) enum '' @ enum_name @ '' {'']
     @ entries @
     ['''',
      ''#[allow(non_camel_case_types)]'',
      ''not_set = 0'',
      ''}'',
      '''']"

definition view_case_lines :: "string \<Rightarrow> string \<Rightarrow> string \<Rightarrow> string \<times> string \<Rightarrow> string list" where
  "view_case_lines msg case_enum view_enum a =
     [msg @ ''_::'' @ case_enum @ ''::'' @ fst a @ '' =>'',
      msg @ ''_::'' @ view_enum @ ''::'' @ fst a @ ''(self.'' @ snd a @ ''()),'']"

definition mut_case_lines :: "string \<Rightarrow> string \<Rightarrow> string \<Rightarrow> string \<times> string \<Rightarrow> string list" where
  "mut_case_lines msg case_enum mut_enum a =
     [msg @ ''_::'' @ case_enum @ ''::'' @ fst a @ '' =>'',
      msg @ ''_::'' @ mut_enum @ ''::'' @ fst a @ ''('',
      ''self.'' @ snd a @ ''().try_into_mut().unwrap()),'']"

definition getter_lines ::
  "string \<Rightarrow> string \<Rightarrow> string \<Rightarrow> string \<Rightarrow> string list \<Rightarrow> string list" where
  "getter_lines fn_name msg view_enum case_thunk arms =
     [''pub fn '' @ fn_name @ ''(&self) -> '' @ msg @ ''_::'' @ view_enum @ '' {'',
      ''match unsafe { '' @ case_thunk @ ''(self.raw_msg()) } {'']
     @ arms @
     [''_ => '' @ msg @ ''_::'' @ view_enum @ ''::not_set(std::marker::PhantomData)'',
      ''}'',
      ''}'']"

definition getter_mut_lines ::
  "string \<Rightarrow> string \<Rightarrow> string \<Rightarrow> string \<Rightarrow> string list \<Rightarrow> string list" where
  "getter_mut_lines fn_name msg mut_enum case_thunk arms =
     [''pub fn '' @ fn_name @ ''_mut(&mut self) -> '' @ msg @ ''_::'' @ mut_enum @ '' {'',
      ''match unsafe { '' @ case_thunk @ ''(self.raw_msg()) } {'']
     @ arms @
     [''_ => '' @ msg @ ''_::'' @ mut_enum @ ''::not_set(std::marker::PhantomData)'',
      ''}'',
      ''}'']"

subsection \<open>The generated accessors at run time\<close>

text \<open>
  The case thunk returns a value of the printed case enum. The enum is \<^verbatim>\<open>#[repr(C)]\<close>
  and has no payloads, so its values are its entries, one per field, and \<^verbatim>\<open>not_set\<close>.
\<close>

datatype case_value = FieldCase string | NotSetCase

text \<open>
  The value of the case enum that the kernel's tag is: the entry that has the tag as its
  discriminant, \<^verbatim>\<open>not_set\<close> for 0, and none for an integer that is no discriminant of
  the enum. Such an integer is no value of the thunk's return type, and what the
  generated accessor does with it is undefined.
\<close>

definition case_of_tag :: "(string \<times> int) list \<Rightarrow> int \<Rightarrow> case_value option" where
  "case_of_tag enum tag =
     (case find (\<lambda>e. snd e = tag) enum of
        Some e \<Rightarrow> Some (FieldCase (fst e))
      | None \<Rightarrow> if tag = 0 then Some NotSetCase else None)"

text \<open>
  What a call of a generated accessor yields: a variant of the union, around the result
  of the field accessor it called, or \<^verbatim>\<open>not_set\<close>, or the panic of \<^verbatim>\<open>unwrap()\<close>.
\<close>

datatype outcome = Variant string string | not_set | unwrap_panic

text \<open>
  The match of the read accessor on a value of the case enum: an arm
  \<^verbatim>\<open>Case::c => View::c(self.g())\<close> is taken when the value is the entry \<open>c\<close>, the
  first such arm wins, and the arm \<^verbatim>\<open>_ => not_set\<close> is taken when none does.
\<close>

fun getter_match :: "(string \<times> string) list \<Rightarrow> case_value \<Rightarrow> outcome" where
  "getter_match [] v = not_set"
| "getter_match ((c, g) # arms) v =
     (if v = FieldCase c then Variant c g else getter_match arms v)"

text \<open>
  A call of the read accessor when the kernel's tag is \<open>tag\<close>; \<open>None\<close> where the tag
  is no value of the case enum and the behaviour is undefined.
\<close>

definition getter_call ::
  "(string \<times> int) list \<Rightarrow> (string \<times> string) list \<Rightarrow> int \<Rightarrow> outcome option" where
  "getter_call enum arms tag = map_option (getter_match arms) (case_of_tag enum tag)"

text \<open>
  Modelled from the spec: the mutable field accessors and \<^verbatim>\<open>try_into_mut()\<close> are
  generated and defined elsewhere in the repository. The accessor of a field returns an
  optional that holds a mutator exactly when the kernel has the field set, and
  \<^verbatim>\<open>try_into_mut().unwrap()\<close> panics on any other; \<open>present g\<close> says that the field
  behind the accessor \<open>g\<close> is set.
\<close>

fun getter_mut_match ::
  "(string \<Rightarrow> bool) \<Rightarrow> (string \<times> string) list \<Rightarrow> case_value \<Rightarrow> outcome" where
  "getter_mut_match present [] v = not_set"
| "getter_mut_match present ((c, g) # arms) v =
     (if v = FieldCase c then (if present g then Variant c g else unwrap_panic)
      else getter_mut_match present arms v)"

definition getter_mut_call ::
  "(string \<times> int) list \<Rightarrow> (string \<Rightarrow> bool) \<Rightarrow> (string \<times> string) list \<Rightarrow> int
   \<Rightarrow> outcome option" where
  "getter_mut_call enum present arms tag =
     map_option (getter_mut_match present arms) (case_of_tag enum tag)"

subsection \<open>The printer's output\<close>

text \<open>
  Every \<^verbatim>\<open>ctx.Emit\<close> appends to the output the printer has collected so far; an abort
  leaves no output.
\<close>

definition emit_into :: "string list \<Rightarrow> error + string list \<Rightarrow> error + string list" where
  "emit_into out r = bind r (\<lambda>t. Inr (out @ t))"

subsection \<open>Sample oneofs\<close>

text \<open>
  A naming as the head of the file describes it: the oneof's name in camel case for the
  view enum, with \<^verbatim>\<open>Mut\<close> and with \<^verbatim>\<open>Case\<close> appended for the other two, and the
  field's name in camel case for a case.
\<close>

definition upper :: "char \<Rightarrow> char" where
  "upper c =
     (case map_of (zip ''abcdefghijklmnopqrstuvwxyz'' ''ABCDEFGHIJKLMNOPQRSTUVWXYZ'') c of
        None \<Rightarrow> c
      | Some u \<Rightarrow> u)"

fun camel :: "bool \<Rightarrow> string \<Rightarrow> string" where
  "camel up [] = []"
| "camel up (c # cs) =
     (if c = CHR ''_'' then camel True cs else (if up then upper c else c) # camel False cs)"

definition sample_naming :: Naming where
  "sample_naming =
     \<lparr>OneofViewEnumRsName = (\<lambda>d. camel True (oneof_name d)),
      OneofMutEnumRsName = (\<lambda>d. camel True (oneof_name d) @ ''Mut''),
      OneofCaseEnumRsName = (\<lambda>d. camel True (oneof_name d) @ ''Case''),
      OneofCaseRsName = (\<lambda>f. camel True (name f)),
      RsSafeName = (\<lambda>s. s),
      RsTypePath = (\<lambda>c f. case rust_field_type f of
          INT32 \<Rightarrow> ''i32'' | INT64 \<Rightarrow> ''i64'' | UINT32 \<Rightarrow> ''u32'' | UINT64 \<Rightarrow> ''u64''
        | FLOAT \<Rightarrow> ''f32'' | DOUBLE \<Rightarrow> ''f64'' | BOOL \<Rightarrow> ''bool'' | BYTES \<Rightarrow> ''[u8]''
        | STRING \<Rightarrow> ''::__pb::ProtoStr'' | _ \<Rightarrow> ''crate::'' @ type_name f),
      ThunkName = (\<lambda>c d s. ''__rust_proto_thunk__'' @ containing_type d @ ''_'' @ oneof_name d
                            @ ''_'' @ s),
      QualifiedClassName = (\<lambda>m. ''::'' @ m)\<rparr>"

definition sample_ctx :: Context where
  "sample_ctx = \<lparr>printer_vars = [(''Msg'', Text ''Person''), (''pbi'', Text ''::__pb::__internal'')]\<rparr>"

definition email :: FieldDescriptor where
  "email = \<lparr>name = ''email'', number = 3, has_ctype = False, rust_field_type = STRING,
             type_name = ''string''\<rparr>"

definition phone :: FieldDescriptor where
  "phone = \<lparr>name = ''phone'', number = 5, has_ctype = False, rust_field_type = INT64,
             type_name = ''int64''\<rparr>"

definition contact :: OneofDescriptor where
  "contact = \<lparr>oneof_name = ''contact'', containing_type = ''Person'',
               oneof_fields = [email, phone]\<rparr>"

definition blob :: FieldDescriptor where
  "blob = \<lparr>name = ''blob'', number = 1, has_ctype = True, rust_field_type = BYTES,
            type_name = ''bytes''\<rparr>"

definition payload :: OneofDescriptor where
  "payload = \<lparr>oneof_name = ''payload'', containing_type = ''Person'', oneof_fields = [blob]\<rparr>"

text \<open>Two fields of a type that is none of the eleven, the first with a ctype option.\<close>

definition cord_group :: FieldDescriptor where
  "cord_group = \<lparr>name = ''cord_group'', number = 7, has_ctype = True,
                  rust_field_type = UNLISTED, type_name = ''group''\<rparr>"

definition plain_group :: FieldDescriptor where
  "plain_group = \<lparr>name = ''plain_group'', number = 8, has_ctype = False,
                   rust_field_type = UNLISTED, type_name = ''group''\<rparr>"

definition legacy_choice :: OneofDescriptor where
  "legacy_choice = \<lparr>oneof_name = ''legacy_choice'', containing_type = ''Person'',
                     oneof_fields = [cord_group]\<rparr>"

definition plain_choice :: OneofDescriptor where
  "plain_choice = \<lparr>oneof_name = ''plain_choice'', containing_type = ''Person'',
                    oneof_fields = [phone, plain_group]\<rparr>"

section \<open>Lemmas\<close>

declare view_fields.simps [simp del] mut_fields.simps [simp del] cases.simps [simp del]
  view_cases.simps [simp del] mut_cases.simps [simp del] digits.simps [simp del]

subsection \<open>The decimal numeral of a number\<close>

text \<open>
  \<open>to_string\<close> is injective: a printed discriminant stands for one number only.
\<close>

lemma digit_inject: "a < 10 \<Longrightarrow> b < 10 \<Longrightarrow> digit a = digit b \<Longrightarrow> a = b"
proof -
  assume a: "a < 10" and b: "b < 10" and e: "digit a = digit b"
  have d: "distinct ''0123456789''" by simp
  have "length ''0123456789'' = 10" by simp
  with a b e d show ?thesis
    unfolding digit_def by (metis nth_eq_iff_index_eq)
qed

lemma digit_not_minus: "d < 10 \<Longrightarrow> digit d \<noteq> CHR ''-''"
proof -
  assume "d < 10"
  then have "digit d \<in> set ''0123456789''"
    unfolding digit_def by (intro nth_mem) simp
  then show ?thesis by auto
qed

lemma digits_nonempty: "digits n \<noteq> []"
  by (subst digits.simps) simp

lemma hd_digits_not_minus: "hd (digits n) \<noteq> CHR ''-''"
proof (induction n rule: digits.induct)
  case (1 n)
  show ?case
  proof (cases "n < 10")
    case True
    then show ?thesis by (subst digits.simps) (simp add: digit_not_minus)
  next
    case False
    with 1 show ?thesis
      by (subst digits.simps) (simp add: digits_nonempty)
  qed
qed

lemma digits_inject: "digits a = digits b \<Longrightarrow> a = b"
proof (induction a arbitrary: b rule: digits.induct)
  case (1 n)
  show ?case
  proof (cases "n < 10")
    case True
    then have n: "digits n = [digit n]" by (subst digits.simps) simp
    show ?thesis
    proof (cases "b < 10")
      case b: True
      then have "digits b = [digit b]" by (subst digits.simps) simp
      with n 1(2) True b show ?thesis by (simp add: digit_inject)
    next
      case False
      then have "digits b = digits (b div 10) @ [digit (b mod 10)]"
        by (subst digits.simps) simp
      with n 1(2) show ?thesis by (simp add: digits_nonempty)
    qed
  next
    case False
    then have n: "digits n = digits (n div 10) @ [digit (n mod 10)]"
      by (subst digits.simps) simp
    show ?thesis
    proof (cases "b < 10")
      case True
      then have "digits b = [digit b]" by (subst digits.simps) simp
      with n 1(2) show ?thesis by (simp add: digits_nonempty[THEN not_sym])
    next
      case b: False
      then have "digits b = digits (b div 10) @ [digit (b mod 10)]"
        by (subst digits.simps) simp
      with n 1(2) have "digits (n div 10) = digits (b div 10)" "digit (n mod 10) = digit (b mod 10)"
        by simp_all
      then have "n div 10 = b div 10" "n mod 10 = b mod 10"
        using 1(1)[OF False] by (simp_all add: digit_inject)
      then show ?thesis by (metis div_mult_mod_eq)
    qed
  qed
qed

lemma to_string_inject: "to_string a = to_string b \<Longrightarrow> a = b"
proof -
  assume e: "to_string a = to_string b"
  have neg: "hd (to_string k) = CHR ''-'' \<longleftrightarrow> k < 0" for k
    using hd_digits_not_minus[of "nat k"] by (simp add: to_string_def)
  from e have s: "a < 0 \<longleftrightarrow> b < 0" using neg by metis
  show ?thesis
  proof (cases "a < 0")
    case True
    with s e have "digits (nat (- a)) = digits (nat (- b))" by (simp add: to_string_def)
    then have "nat (- a) = nat (- b)" by (rule digits_inject)
    with True s show ?thesis by simp
  next
    case False
    with s e have "digits (nat a) = digits (nat b)" by (simp add: to_string_def)
    then have "nat a = nat b" by (rule digits_inject)
    with False s show ?thesis by simp
  qed
qed

lemma case_line_number:
  "case_line (c, k) = case_line (c, k') \<Longrightarrow> k = k'"
  by (simp add: case_line_def to_string_inject)

subsection \<open>The loops\<close>

text \<open>
  Each loop, from index \<open>i\<close> on, prints the lines of the fields from \<open>i\<close> on that it
  does not skip; it is total when no field without a ctype option has a type outside the
  eleven.
\<close>

lemma bind_Inr: "bind (Inr x) f = f x" by (simp add: bind_def)
lemma bind_Inl: "bind (Inl e) f = Inl e" by (simp add: bind_def)

lemma Emit_variant_format:
  "Emit ((''name'', Text n) # (''type'', Text t) # (''number'', Text k) # env) variant_format
   = Inr [n @ ''('' @ t @ '') = '' @ k @ '','']"
  by (simp add: variant_format_def bind_Inr)

lemma Emit_case_format:
  "Emit ((''name'', Text n) # (''number'', Text k) # env) case_format
   = Inr [n @ '' = '' @ k @ '','']"
  by (simp add: case_format_def bind_Inr)

lemma RsTypeNameView_ctype: "has_ctype fd \<Longrightarrow> RsTypeNameView nm ctx fd = Inr ''''"
  by (simp add: RsTypeNameView_def)

lemma RsTypeNameMut_ctype: "has_ctype fd \<Longrightarrow> RsTypeNameMut nm ctx fd = Inr ''''"
  by (simp add: RsTypeNameMut_def)

lemma RsTypeNameView_listed:
  "\<not> has_ctype fd \<Longrightarrow> rust_field_type fd \<noteq> UNLISTED \<Longrightarrow> RsTypePath nm ctx fd \<noteq> []
   \<Longrightarrow> \<exists>t. RsTypeNameView nm ctx fd = Inr t \<and> t \<noteq> []"
  by (cases "rust_field_type fd") (simp_all add: RsTypeNameView_def)

lemma RsTypeNameMut_listed:
  "\<not> has_ctype fd \<Longrightarrow> rust_field_type fd \<noteq> UNLISTED
   \<Longrightarrow> \<exists>t. RsTypeNameMut nm ctx fd = Inr t \<and> t \<noteq> []"
  by (cases "rust_field_type fd") (simp_all add: RsTypeNameMut_def)

lemma cases_drop:
  "cases nm ctx env oneof i =
     Inr (map (\<lambda>f. OneofCaseRsName nm f @ '' = '' @ to_string (number f) @ '','')
            (drop i (oneof_fields oneof)))"
proof (induction "field_count oneof - i" arbitrary: i)
  case 0
  then show ?case by (subst cases.simps) (simp add: field_count_def)
next
  case (Suc k)
  then have lt: "i < length (oneof_fields oneof)" and k: "k = field_count oneof - Suc i"
    by (simp_all add: field_count_def)
  have d: "drop i (oneof_fields oneof) = field oneof i # drop (Suc i) (oneof_fields oneof)"
    using lt by (simp add: field_def Cons_nth_drop_Suc)
  show ?case
    by (subst cases.simps) (simp add: lt field_count_def Emit_case_format Suc.hyps(1)[OF k] d)
qed

lemma view_fields_drop:
  assumes "\<forall>f\<in>set (oneof_fields oneof). \<not> has_ctype f \<longrightarrow> rust_field_type f \<noteq> UNLISTED"
    and "\<forall>f\<in>set (oneof_fields oneof). \<not> has_ctype f \<longrightarrow> RsTypePath nm ctx f \<noteq> []"
  shows "view_fields nm ctx env oneof i =
     Inr (map (\<lambda>f. OneofCaseRsName nm f @ ''('' @ projr (RsTypeNameView nm ctx f) @ '') = ''
                  @ to_string (number f) @ '','')
            (filter (\<lambda>f. \<not> has_ctype f) (drop i (oneof_fields oneof))))"
proof (induction "field_count oneof - i" arbitrary: i)
  case 0
  then show ?case by (subst view_fields.simps) (simp add: field_count_def)
next
  case (Suc k)
  then have lt: "i < length (oneof_fields oneof)" and k: "k = field_count oneof - Suc i"
    by (simp_all add: field_count_def)
  have d: "drop i (oneof_fields oneof) = field oneof i # drop (Suc i) (oneof_fields oneof)"
    using lt by (simp add: field_def Cons_nth_drop_Suc)
  have mem: "field oneof i \<in> set (oneof_fields oneof)"
    using lt by (simp add: field_def)
  show ?case
  proof (cases "has_ctype (field oneof i)")
    case True
    then show ?thesis
      by (subst view_fields.simps)
        (simp add: lt field_count_def RsTypeNameView_ctype Suc.hyps(1)[OF k] d)
  next
    case False
    with assms mem obtain t where t: "RsTypeNameView nm ctx (field oneof i) = Inr t" "t \<noteq> []"
      using RsTypeNameView_listed by blast
    with False show ?thesis
      by (subst view_fields.simps)
        (simp add: lt field_count_def Emit_variant_format Suc.hyps(1)[OF k] d)
  qed
qed


lemma mut_fields_drop:
  assumes "\<forall>f\<in>set (oneof_fields oneof). \<not> has_ctype f \<longrightarrow> rust_field_type f \<noteq> UNLISTED"
  shows "mut_fields nm ctx env oneof i =
     Inr (map (\<lambda>f. OneofCaseRsName nm f @ ''('' @ projr (RsTypeNameMut nm ctx f) @ '') = ''
                  @ to_string (number f) @ '','')
            (filter (\<lambda>f. \<not> has_ctype f) (drop i (oneof_fields oneof))))"
proof (induction "field_count oneof - i" arbitrary: i)
  case 0
  then show ?case by (subst mut_fields.simps) (simp add: field_count_def)
next
  case (Suc k)
  then have lt: "i < length (oneof_fields oneof)" and k: "k = field_count oneof - Suc i"
    by (simp_all add: field_count_def)
  have d: "drop i (oneof_fields oneof) = field oneof i # drop (Suc i) (oneof_fields oneof)"
    using lt by (simp add: field_def Cons_nth_drop_Suc)
  have mem: "field oneof i \<in> set (oneof_fields oneof)"
    using lt by (simp add: field_def)
  show ?case
  proof (cases "has_ctype (field oneof i)")
    case True
    then show ?thesis
      by (subst mut_fields.simps)
        (simp add: lt field_count_def RsTypeNameMut_ctype Suc.hyps(1)[OF k] d)
  next
    case False
    with assms mem obtain t where t: "RsTypeNameMut nm ctx (field oneof i) = Inr t" "t \<noteq> []"
      using RsTypeNameMut_listed by blast
    with False show ?thesis
      by (subst mut_fields.simps)
        (simp add: lt field_count_def Emit_variant_format Suc.hyps(1)[OF k] d)
  qed
qed

lemma RsTypeNameView_total:
  "\<not> has_ctype fd \<longrightarrow> rust_field_type fd \<noteq> UNLISTED \<Longrightarrow> \<exists>t. RsTypeNameView nm ctx fd = Inr t"
  by (cases "rust_field_type fd") (simp_all add: RsTypeNameView_def)

lemma view_fields_total:
  assumes "\<forall>f\<in>set (oneof_fields oneof). \<not> has_ctype f \<longrightarrow> rust_field_type f \<noteq> UNLISTED"
  shows "\<exists>ls. view_fields nm ctx env oneof i = Inr ls"
proof (induction "field_count oneof - i" arbitrary: i)
  case 0
  then show ?case by (subst view_fields.simps) (simp add: field_count_def)
next
  case (Suc k)
  then have lt: "i < length (oneof_fields oneof)" and k: "k = field_count oneof - Suc i"
    by (simp_all add: field_count_def)
  have mem: "field oneof i \<in> set (oneof_fields oneof)"
    using lt by (simp add: field_def)
  from assms mem obtain t where t: "RsTypeNameView nm ctx (field oneof i) = Inr t"
    using RsTypeNameView_total by blast
  from Suc.hyps(1)[OF k] obtain ls where ls: "view_fields nm ctx env oneof (Suc i) = Inr ls"
    by blast
  show ?case
    by (subst view_fields.simps) (simp add: lt field_count_def t ls Emit_variant_format)
qed

lemma GenerateOneofDefinition_enums:
  assumes v: "view_fields nm ctx
                ((''view_enum_name'', Text (OneofViewEnumRsName nm oneof)) #
                 (''mut_enum_name'', Text (OneofMutEnumRsName nm oneof)) # printer_vars ctx)
                oneof 0 = Inr vs"
    and m: "mut_fields nm ctx
                ((''view_enum_name'', Text (OneofViewEnumRsName nm oneof)) #
                 (''mut_enum_name'', Text (OneofMutEnumRsName nm oneof)) # printer_vars ctx)
                oneof 0 = Inr ms"
  shows "GenerateOneofDefinition nm ctx oneof =
     Inr ([''#[non_exhaustive]'',
           ''#[derive(Debug, Clone, Copy)]'',
           ''#[allow(dead_code)]'',
           ''#[repr(isize)]'',
           ''pub enum '' @ OneofViewEnumRsName nm oneof @ ''<'msg> {'']
          @ vs @
          ['''',
           ''#[allow(non_camel_case_types)]'',
           ''not_set(std::marker::PhantomData<&'msg ()>) = 0'',
           ''}'',
           '''',
           ''#[non_exhaustive]'',
           ''#[derive(Debug)]'',
           ''#[allow(dead_code)]'',
           ''#[repr(isize)]'',
           ''pub enum '' @ OneofMutEnumRsName nm oneof @ ''<'msg> {'']
          @ ms @
          ['''',
           ''#[allow(non_camel_case_types)]'',
           ''not_set(std::marker::PhantomData<&'msg ()>) = 0'',
           ''}'',
           '''',
           ''#[repr(C)]'',
           ''#[derive(Debug, Copy, Clone, PartialEq, Eq)]'',
           ''#[allow(dead_code)]'',
           ''pub(super) enum '' @ OneofCaseEnumRsName nm oneof @ '' {'']
          @ map (\<lambda>f. OneofCaseRsName nm f @ '' = '' @ to_string (number f) @ '','')
              (oneof_fields oneof) @
          ['''',
           ''#[allow(non_camel_case_types)]'',
           ''not_set = 0'',
           ''}'',
           ''''])"
  by (simp add: GenerateOneofDefinition_def enums_format_def case_enum_format_def bind_Inr
      v m cases_drop)

subsection \<open>The match arms and the accessors\<close>

lemma Emit_view_case_format:
  assumes "map_of env ''Msg'' = Some (Text msg)"
    and "map_of env ''case_enum_name'' = Some (Text ce)"
    and "map_of env ''view_enum_name'' = Some (Text ve)"
  shows "Emit ((''case'', Text c) # (''rs_getter'', Text g) # (''type'', Text t) # env)
           view_case_format = Inr (view_case_lines msg ce ve (c, g))"
  using assms by (simp add: view_case_format_def view_case_lines_def bind_Inr)

lemma Emit_mut_case_format:
  assumes "map_of env ''Msg'' = Some (Text msg)"
    and "map_of env ''case_enum_name'' = Some (Text ce)"
    and "map_of env ''mut_enum_name'' = Some (Text me)"
  shows "Emit ((''case'', Text c) # (''rs_mut_getter'', Text g) # (''type'', Text t) # env)
           mut_case_format = Inr (mut_case_lines msg ce me (c, g))"
  using assms by (simp add: mut_case_format_def mut_case_lines_def bind_Inr)

lemma view_cases_drop:
  assumes "\<forall>f\<in>set (oneof_fields oneof). \<not> has_ctype f \<longrightarrow> rust_field_type f \<noteq> UNLISTED"
    and "\<forall>f\<in>set (oneof_fields oneof). \<not> has_ctype f \<longrightarrow> RsTypePath nm ctx f \<noteq> []"
    and env: "map_of env ''Msg'' = Some (Text msg)"
      "map_of env ''case_enum_name'' = Some (Text ce)"
      "map_of env ''view_enum_name'' = Some (Text ve)"
  shows "view_cases nm ctx env oneof i =
     Inr (concat (map (\<lambda>f. view_case_lines msg ce ve (OneofCaseRsName nm f, RsSafeName nm (name f)))
            (filter (\<lambda>f. \<not> has_ctype f) (drop i (oneof_fields oneof)))))"
proof (induction "field_count oneof - i" arbitrary: i)
  case 0
  then show ?case by (subst view_cases.simps) (simp add: field_count_def)
next
  case (Suc k)
  then have lt: "i < length (oneof_fields oneof)" and k: "k = field_count oneof - Suc i"
    by (simp_all add: field_count_def)
  have d: "drop i (oneof_fields oneof) = field oneof i # drop (Suc i) (oneof_fields oneof)"
    using lt by (simp add: field_def Cons_nth_drop_Suc)
  have mem: "field oneof i \<in> set (oneof_fields oneof)"
    using lt by (simp add: field_def)
  show ?case
  proof (cases "has_ctype (field oneof i)")
    case True
    then show ?thesis
      by (subst view_cases.simps)
        (simp add: lt field_count_def RsTypeNameView_ctype Suc.hyps(1)[OF k] d)
  next
    case False
    with assms(1,2) mem obtain t where t: "RsTypeNameView nm ctx (field oneof i) = Inr t" "t \<noteq> []"
      using RsTypeNameView_listed by blast
    with False show ?thesis
      by (subst view_cases.simps)
        (simp add: lt field_count_def Emit_view_case_format[OF env] Suc.hyps(1)[OF k] d)
  qed
qed

lemma mut_cases_drop:
  assumes "\<forall>f\<in>set (oneof_fields oneof). \<not> has_ctype f \<longrightarrow> rust_field_type f \<noteq> UNLISTED"
    and env: "map_of env ''Msg'' = Some (Text msg)"
      "map_of env ''case_enum_name'' = Some (Text ce)"
      "map_of env ''mut_enum_name'' = Some (Text me)"
  shows "mut_cases nm ctx env oneof i =
     Inr (concat (map (\<lambda>f. mut_case_lines msg ce me (OneofCaseRsName nm f, name f @ ''_mut''))
            (filter (\<lambda>f. \<not> has_ctype f) (drop i (oneof_fields oneof)))))"
proof (induction "field_count oneof - i" arbitrary: i)
  case 0
  then show ?case by (subst mut_cases.simps) (simp add: field_count_def)
next
  case (Suc k)
  then have lt: "i < length (oneof_fields oneof)" and k: "k = field_count oneof - Suc i"
    by (simp_all add: field_count_def)
  have d: "drop i (oneof_fields oneof) = field oneof i # drop (Suc i) (oneof_fields oneof)"
    using lt by (simp add: field_def Cons_nth_drop_Suc)
  have mem: "field oneof i \<in> set (oneof_fields oneof)"
    using lt by (simp add: field_def)
  show ?case
  proof (cases "has_ctype (field oneof i)")
    case True
    then show ?thesis
      by (subst mut_cases.simps)
        (simp add: lt field_count_def RsTypeNameMut_ctype Suc.hyps(1)[OF k] d)
  next
    case False
    with assms(1) mem obtain t where t: "RsTypeNameMut nm ctx (field oneof i) = Inr t" "t \<noteq> []"
      using RsTypeNameMut_listed by blast
    with False show ?thesis
      by (subst mut_cases.simps)
        (simp add: lt field_count_def Emit_mut_case_format[OF env] Suc.hyps(1)[OF k] d)
  qed
qed

lemma view_cases_total:
  assumes "\<forall>f\<in>set (oneof_fields oneof). \<not> has_ctype f \<longrightarrow> rust_field_type f \<noteq> UNLISTED"
    and env: "map_of env ''Msg'' = Some (Text msg)"
      "map_of env ''case_enum_name'' = Some (Text ce)"
      "map_of env ''view_enum_name'' = Some (Text ve)"
  shows "\<exists>ls. view_cases nm ctx env oneof i = Inr ls"
proof (induction "field_count oneof - i" arbitrary: i)
  case 0
  then show ?case by (subst view_cases.simps) (simp add: field_count_def)
next
  case (Suc k)
  then have lt: "i < length (oneof_fields oneof)" and k: "k = field_count oneof - Suc i"
    by (simp_all add: field_count_def)
  have mem: "field oneof i \<in> set (oneof_fields oneof)"
    using lt by (simp add: field_def)
  from assms(1) mem obtain t where t: "RsTypeNameView nm ctx (field oneof i) = Inr t"
    using RsTypeNameView_total by blast
  from Suc.hyps(1)[OF k] obtain ls where ls: "view_cases nm ctx env oneof (Suc i) = Inr ls"
    by blast
  show ?case
    by (subst view_cases.simps)
      (simp add: lt field_count_def t ls Emit_view_case_format[OF env])
qed

lemma GenerateOneofAccessors_lines:
  assumes msg: "map_of (printer_vars ctx) ''Msg'' = Some (Text msg)"
    and v: "view_cases nm ctx
              ((''oneof_name'', Text (RsSafeName nm (oneof_name oneof))) #
               (''view_enum_name'', Text (OneofViewEnumRsName nm oneof)) #
               (''mut_enum_name'', Text (OneofMutEnumRsName nm oneof)) #
               (''case_enum_name'', Text (OneofCaseEnumRsName nm oneof)) #
               (''case_thunk'', Text (ThunkName nm ctx oneof ''case'')) # printer_vars ctx)
              oneof 0 = Inr vs"
    and m: "accessor_case \<noteq> VIEW \<longrightarrow> mut_cases nm ctx
              ((''oneof_name'', Text (RsSafeName nm (oneof_name oneof))) #
               (''view_enum_name'', Text (OneofViewEnumRsName nm oneof)) #
               (''mut_enum_name'', Text (OneofMutEnumRsName nm oneof)) #
               (''case_enum_name'', Text (OneofCaseEnumRsName nm oneof)) #
               (''case_thunk'', Text (ThunkName nm ctx oneof ''case'')) # printer_vars ctx)
              oneof 0 = Inr ms"
  shows "GenerateOneofAccessors nm ctx oneof accessor_case =
     Inr ([''pub fn '' @ RsSafeName nm (oneof_name oneof) @ ''(&self) -> '' @ msg @ ''_::''
             @ OneofViewEnumRsName nm oneof @ '' {'',
           ''match unsafe { '' @ ThunkName nm ctx oneof ''case'' @ ''(self.raw_msg()) } {'']
          @ vs @
          [''_ => '' @ msg @ ''_::'' @ OneofViewEnumRsName nm oneof
             @ ''::not_set(std::marker::PhantomData)'',
           ''}'',
           ''}'']
          @ (if accessor_case = VIEW then []
             else [''pub fn '' @ RsSafeName nm (oneof_name oneof) @ ''_mut(&mut self) -> '' @ msg
                     @ ''_::'' @ OneofMutEnumRsName nm oneof @ '' {'',
                   ''match unsafe { '' @ ThunkName nm ctx oneof ''case''
                     @ ''(self.raw_msg()) } {'']
                  @ ms @
                  [''_ => '' @ msg @ ''_::'' @ OneofMutEnumRsName nm oneof
                     @ ''::not_set(std::marker::PhantomData)'',
                   ''}'',
                   ''}'']))"
  using msg v m
  by (simp add: GenerateOneofAccessors_def getter_format_def getter_mut_format_def bind_Inr)

subsection \<open>The matches at run time\<close>

lemma find_entry:
  assumes "inj_on D (set fs)" and "f \<in> set fs"
  shows "find (\<lambda>e. snd e = D f) (map (\<lambda>f. (N f, D f)) fs) = Some (N f, D f)"
  using assms
proof (induction fs)
  case Nil
  then show ?case by simp
next
  case (Cons a fs)
  show ?case
  proof (cases "a = f")
    case True
    then show ?thesis by simp
  next
    case False
    with Cons.prems have "D a \<noteq> D f" and "f \<in> set fs" and "inj_on D (set fs)"
      by (auto simp: inj_on_def)
    with Cons.IH show ?thesis by simp
  qed
qed

lemma find_entry_some:
  assumes "tag \<in> D ` set fs"
  shows "\<exists>g\<in>set fs. D g = tag
           \<and> find (\<lambda>e. snd e = tag) (map (\<lambda>f. (N f, D f)) fs) = Some (N g, D g)"
  using assms by (induction fs) auto

lemma find_entry_none:
  assumes "tag \<notin> D ` set fs"
  shows "find (\<lambda>e. snd e = tag) (map (\<lambda>f. (N f, D f)) fs) = None"
  using assms by (induction fs) auto

lemma case_of_tag_field:
  assumes "inj_on D (set fs)" and "f \<in> set fs"
  shows "case_of_tag (map (\<lambda>f. (N f, D f)) fs) (D f) = Some (FieldCase (N f))"
  by (simp add: case_of_tag_def find_entry[OF assms])

lemma case_of_tag_other:
  assumes "tag \<notin> D ` set fs"
  shows "case_of_tag (map (\<lambda>f. (N f, D f)) fs) tag = (if tag = 0 then Some NotSetCase else None)"
  by (simp add: case_of_tag_def find_entry_none[OF assms])

lemma getter_match_not_set: "getter_match arms NotSetCase = not_set"
  by (induction arms) auto

lemma getter_mut_match_not_set: "getter_mut_match present arms NotSetCase = not_set"
  by (induction arms) auto

lemma getter_match_field:
  assumes "inj_on N (set fs)" and "g \<in> set fs" and "set bs \<subseteq> set fs"
  shows "getter_match (map (\<lambda>f. (N f, G f)) bs) (FieldCase (N g)) =
           (if g \<in> set bs then Variant (N g) (G g) else not_set)"
  using assms(3)
proof (induction bs)
  case Nil
  then show ?case by simp
next
  case (Cons b bs)
  then have "b \<in> set fs" by simp
  with assms(1,2) have "N g = N b \<longleftrightarrow> g = b"
    by (auto simp: inj_on_def)
  with Cons show ?case by auto
qed

lemma getter_mut_match_field:
  assumes "inj_on N (set fs)" and "g \<in> set fs" and "set bs \<subseteq> set fs"
  shows "getter_mut_match present (map (\<lambda>f. (N f, G f)) bs) (FieldCase (N g)) =
           (if g \<in> set bs then (if present (G g) then Variant (N g) (G g) else unwrap_panic)
            else not_set)"
  using assms(3)
proof (induction bs)
  case Nil
  then show ?case by simp
next
  case (Cons b bs)
  then have "b \<in> set fs" by simp
  with assms(1,2) have "N g = N b \<longleftrightarrow> g = b"
    by (auto simp: inj_on_def)
  with Cons show ?case by auto
qed


subsection \<open>Aborts\<close>

lemma RsTypeNameView_unlisted:
  "\<not> has_ctype fd \<Longrightarrow> rust_field_type fd = UNLISTED
   \<Longrightarrow> RsTypeNameView nm ctx fd = Inl (Fatal (''Unexpected field type: '' @ type_name fd))"
  by (simp add: RsTypeNameView_def)

lemma RsTypeNameMut_unlisted:
  "\<not> has_ctype fd \<Longrightarrow> rust_field_type fd = UNLISTED
   \<Longrightarrow> RsTypeNameMut nm ctx fd = Inl (Fatal (''Unexpected field type: '' @ type_name fd))"
  by (simp add: RsTypeNameMut_def)

lemma view_fields_abort:
  assumes "j < field_count oneof" and "\<not> has_ctype (field oneof j)"
    and "rust_field_type (field oneof j) = UNLISTED"
  shows "i \<le> j \<Longrightarrow> isl (view_fields nm ctx env oneof i)"
proof (induction "j - i" arbitrary: i)
  case 0
  then have "i = j" by simp
  with assms show ?case
    by (subst view_fields.simps) (simp add: RsTypeNameView_unlisted)
next
  case (Suc k)
  then have lt: "i < field_count oneof" and k: "k = j - Suc i" and le: "Suc i \<le> j"
    using assms(1) by simp_all
  have ih: "isl (view_fields nm ctx env oneof (Suc i))"
    by (rule Suc.hyps(1)[OF k le])
  show ?case
    by (subst view_fields.simps) (use lt ih in \<open>auto split: sum.splits\<close>)
qed

lemma view_cases_abort:
  assumes "j < field_count oneof" and "\<not> has_ctype (field oneof j)"
    and "rust_field_type (field oneof j) = UNLISTED"
  shows "i \<le> j \<Longrightarrow> isl (view_cases nm ctx env oneof i)"
proof (induction "j - i" arbitrary: i)
  case 0
  then have "i = j" by simp
  with assms show ?case
    by (subst view_cases.simps) (simp add: RsTypeNameView_unlisted)
next
  case (Suc k)
  then have lt: "i < field_count oneof" and k: "k = j - Suc i" and le: "Suc i \<le> j"
    using assms(1) by simp_all
  have ih: "isl (view_cases nm ctx env oneof (Suc i))"
    by (rule Suc.hyps(1)[OF k le])
  show ?case
    by (subst view_cases.simps) (use lt ih in \<open>auto split: sum.splits\<close>)
qed

lemma GenerateOneofDefinition_abort:
  assumes "fd \<in> set (oneof_fields oneof)" and "\<not> has_ctype fd"
    and "rust_field_type fd = UNLISTED"
  shows "isl (GenerateOneofDefinition nm ctx oneof)"
proof -
  from assms(1) obtain j where j: "j < field_count oneof" "field oneof j = fd"
    by (auto simp: in_set_conv_nth field_count_def field_def)
  have "isl (view_fields nm ctx env oneof 0)" for env
    using view_fields_abort[of j oneof 0 nm ctx env] j assms(2,3) by simp
  then obtain e where "view_fields nm ctx
      ((''view_enum_name'', Text (OneofViewEnumRsName nm oneof)) #
       (''mut_enum_name'', Text (OneofMutEnumRsName nm oneof)) # printer_vars ctx) oneof 0 = Inl e"
    by (metis sum.collapse(1))
  then show ?thesis
    by (simp add: GenerateOneofDefinition_def enums_format_def bind_Inr bind_Inl)
qed

lemma GenerateOneofAccessors_abort:
  assumes "fd \<in> set (oneof_fields oneof)" and "\<not> has_ctype fd"
    and "rust_field_type fd = UNLISTED"
  shows "isl (GenerateOneofAccessors nm ctx oneof accessor_case)"
proof -
  from assms(1) obtain j where j: "j < field_count oneof" "field oneof j = fd"
    by (auto simp: in_set_conv_nth field_count_def field_def)
  have "isl (view_cases nm ctx env oneof 0)" for env
    using view_cases_abort[of j oneof 0 nm ctx env] j assms(2,3) by simp
  then obtain e where "view_cases nm ctx
      ((''oneof_name'', Text (RsSafeName nm (oneof_name oneof))) #
       (''view_enum_name'', Text (OneofViewEnumRsName nm oneof)) #
       (''mut_enum_name'', Text (OneofMutEnumRsName nm oneof)) #
       (''case_enum_name'', Text (OneofCaseEnumRsName nm oneof)) #
       (''case_thunk'', Text (ThunkName nm ctx oneof ''case'')) # printer_vars ctx) oneof 0 = Inl e"
    by (metis sum.collapse(1))
  then have v: "view_cases nm ctx
      ((''oneof_name'', Text (RsSafeName nm (oneof_name oneof))) #
       (''view_enum_name'', Text (OneofViewEnumRsName nm oneof)) #
       (''mut_enum_name'', Text (OneofMutEnumRsName nm oneof)) #
       (''case_enum_name'', Text (OneofCaseEnumRsName nm oneof)) #
       (''case_thunk'', Text (ThunkName nm ctx oneof ''case'')) # printer_vars ctx) oneof 0 = Inl e" .
  show ?thesis
  proof (cases "map_of (printer_vars ctx) ''Msg''")
    case None
    then show ?thesis
      by (simp add: GenerateOneofAccessors_def getter_format_def Let_def bind_Inl)
  next
    case (Some s)
    then show ?thesis
      using v
      by (cases s)
        (simp_all add: GenerateOneofAccessors_def getter_format_def Let_def bind_Inr bind_Inl)
  qed
qed

lemma mut_types_total:
  "rust_field_type fd \<noteq> UNLISTED \<Longrightarrow> \<not> isl (RsTypeNameMut nm ctx fd)"
  by (cases "rust_field_type fd") (simp_all add: RsTypeNameMut_def)

lemma view_types_total:
  "rust_field_type fd \<noteq> UNLISTED \<Longrightarrow> \<not> isl (RsTypeNameView nm ctx fd)"
  by (cases "rust_field_type fd") (simp_all add: RsTypeNameView_def)

lemma GenerateOneofDefinition_returns:
  assumes "\<forall>f\<in>set (oneof_fields oneof). \<not> has_ctype f \<longrightarrow> rust_field_type f \<noteq> UNLISTED"
  shows "\<not> isl (GenerateOneofDefinition nm ctx oneof)"
proof -
  obtain vs where "view_fields nm ctx
      ((''view_enum_name'', Text (OneofViewEnumRsName nm oneof)) #
       (''mut_enum_name'', Text (OneofMutEnumRsName nm oneof)) # printer_vars ctx) oneof 0 = Inr vs"
    using view_fields_total[OF assms] by blast
  then show ?thesis
    using GenerateOneofDefinition_enums[OF _ mut_fields_drop[OF assms]] by simp
qed

subsection \<open>The generators' output, in the shape of the generated code\<close>

lemmas layout_defs = variant_line_def case_line_def view_enum_lines_def mut_enum_lines_def
  case_enum_lines_def view_case_lines_def mut_case_lines_def getter_lines_def
  getter_mut_lines_def

lemmas sample_defs = sample_naming_def sample_ctx_def email_def phone_def contact_def blob_def
  payload_def cord_group_def plain_group_def legacy_choice_def plain_choice_def upper_def

lemma to_string_samples:
  "to_string 0 = ''0''" "to_string 1 = ''1''" "to_string 3 = ''3''" "to_string 5 = ''5''"
  "to_string 7 = ''7''" "to_string 8 = ''8''" "to_string 12 = ''12''" "to_string (- 4) = ''-4''"
  by (simp_all add: to_string_def digits.simps digit_def)

lemma GenerateOneofDefinition_layout:
  assumes "\<forall>f\<in>set (oneof_fields oneof). \<not> has_ctype f \<longrightarrow> rust_field_type f \<noteq> UNLISTED"
    and "\<forall>f\<in>set (oneof_fields oneof). \<not> has_ctype f \<longrightarrow> RsTypePath nm ctx f \<noteq> []"
  shows "GenerateOneofDefinition nm ctx oneof =
     Inr (view_enum_lines (OneofViewEnumRsName nm oneof)
            (map (\<lambda>f. variant_line
                        (OneofCaseRsName nm f, projr (RsTypeNameView nm ctx f), number f))
               (filter (\<lambda>f. \<not> has_ctype f) (oneof_fields oneof)))
          @ mut_enum_lines (OneofMutEnumRsName nm oneof)
            (map (\<lambda>f. variant_line
                        (OneofCaseRsName nm f, projr (RsTypeNameMut nm ctx f), number f))
               (filter (\<lambda>f. \<not> has_ctype f) (oneof_fields oneof)))
          @ case_enum_lines (OneofCaseEnumRsName nm oneof)
            (map (\<lambda>f. case_line (OneofCaseRsName nm f, number f)) (oneof_fields oneof)))"
  using GenerateOneofDefinition_enums[OF view_fields_drop[OF assms, of _ 0]
      mut_fields_drop[OF assms(1), of _ _ _ 0]]
  by (simp add: layout_defs)

lemma GenerateOneofDefinition_layout_mut:
  assumes "\<forall>f\<in>set (oneof_fields oneof). \<not> has_ctype f \<longrightarrow> rust_field_type f \<noteq> UNLISTED"
  shows "\<exists>vs. GenerateOneofDefinition nm ctx oneof =
     Inr (view_enum_lines (OneofViewEnumRsName nm oneof) vs
          @ mut_enum_lines (OneofMutEnumRsName nm oneof)
            (map (\<lambda>f. variant_line
                        (OneofCaseRsName nm f, projr (RsTypeNameMut nm ctx f), number f))
               (filter (\<lambda>f. \<not> has_ctype f) (oneof_fields oneof)))
          @ case_enum_lines (OneofCaseEnumRsName nm oneof)
            (map (\<lambda>f. case_line (OneofCaseRsName nm f, number f)) (oneof_fields oneof)))"
proof -
  obtain vs where vs: "view_fields nm ctx
      ((''view_enum_name'', Text (OneofViewEnumRsName nm oneof)) #
       (''mut_enum_name'', Text (OneofMutEnumRsName nm oneof)) # printer_vars ctx) oneof 0 = Inr vs"
    using view_fields_total[OF assms] by blast
  show ?thesis
    using GenerateOneofDefinition_enums[OF vs mut_fields_drop[OF assms, of _ _ _ 0]]
    by (intro exI[of _ vs]) (simp add: layout_defs)
qed


lemma GenerateOneofAccessors_layout_view:
  assumes "\<forall>f\<in>set (oneof_fields oneof). \<not> has_ctype f \<longrightarrow> rust_field_type f \<noteq> UNLISTED"
    and msg: "map_of (printer_vars ctx) ''Msg'' = Some (Text msg)"
  shows "\<exists>vs. \<forall>accessor_case. GenerateOneofAccessors nm ctx oneof accessor_case =
     Inr (getter_lines (RsSafeName nm (oneof_name oneof)) msg (OneofViewEnumRsName nm oneof)
            (ThunkName nm ctx oneof ''case'') vs
          @ (if accessor_case = VIEW then []
             else getter_mut_lines (RsSafeName nm (oneof_name oneof)) msg
                    (OneofMutEnumRsName nm oneof) (ThunkName nm ctx oneof ''case'')
                    (concat (map (\<lambda>f. mut_case_lines msg (OneofCaseEnumRsName nm oneof)
                                          (OneofMutEnumRsName nm oneof)
                                          (OneofCaseRsName nm f, name f @ ''_mut''))
                               (filter (\<lambda>f. \<not> has_ctype f) (oneof_fields oneof))))))"
proof -
  let ?env = "(''oneof_name'', Text (RsSafeName nm (oneof_name oneof))) #
       (''view_enum_name'', Text (OneofViewEnumRsName nm oneof)) #
       (''mut_enum_name'', Text (OneofMutEnumRsName nm oneof)) #
       (''case_enum_name'', Text (OneofCaseEnumRsName nm oneof)) #
       (''case_thunk'', Text (ThunkName nm ctx oneof ''case'')) # printer_vars ctx"
  have env: "map_of ?env ''Msg'' = Some (Text msg)"
    "map_of ?env ''case_enum_name'' = Some (Text (OneofCaseEnumRsName nm oneof))"
    "map_of ?env ''view_enum_name'' = Some (Text (OneofViewEnumRsName nm oneof))"
    "map_of ?env ''mut_enum_name'' = Some (Text (OneofMutEnumRsName nm oneof))"
    using msg by simp_all
  obtain vs where vs: "view_cases nm ctx ?env oneof 0 = Inr vs"
    using view_cases_total[OF assms(1) env(1,2,3)] by blast
  have ms: "mut_cases nm ctx ?env oneof 0 =
     Inr (concat (map (\<lambda>f. mut_case_lines msg (OneofCaseEnumRsName nm oneof)
                             (OneofMutEnumRsName nm oneof) (OneofCaseRsName nm f, name f @ ''_mut''))
            (filter (\<lambda>f. \<not> has_ctype f) (oneof_fields oneof))))"
    using mut_cases_drop[OF assms(1) env(1,2,4), of nm ctx 0] by simp
  have "GenerateOneofAccessors nm ctx oneof accessor_case =
     Inr (getter_lines (RsSafeName nm (oneof_name oneof)) msg (OneofViewEnumRsName nm oneof)
            (ThunkName nm ctx oneof ''case'') vs
          @ (if accessor_case = VIEW then []
             else getter_mut_lines (RsSafeName nm (oneof_name oneof)) msg
                    (OneofMutEnumRsName nm oneof) (ThunkName nm ctx oneof ''case'')
                    (concat (map (\<lambda>f. mut_case_lines msg (OneofCaseEnumRsName nm oneof)
                                          (OneofMutEnumRsName nm oneof)
                                          (OneofCaseRsName nm f, name f @ ''_mut''))
                               (filter (\<lambda>f. \<not> has_ctype f) (oneof_fields oneof))))))"
    for accessor_case
    using GenerateOneofAccessors_lines[OF msg vs impI[OF ms], of accessor_case]
    by (simp add: getter_lines_def getter_mut_lines_def)
  then show ?thesis by blast
qed

lemma GenerateOneofAccessors_layout:
  assumes "\<forall>f\<in>set (oneof_fields oneof). \<not> has_ctype f \<longrightarrow> rust_field_type f \<noteq> UNLISTED"
    and "\<forall>f\<in>set (oneof_fields oneof). \<not> has_ctype f \<longrightarrow> RsTypePath nm ctx f \<noteq> []"
    and msg: "map_of (printer_vars ctx) ''Msg'' = Some (Text msg)"
  shows "GenerateOneofAccessors nm ctx oneof accessor_case =
     Inr (getter_lines (RsSafeName nm (oneof_name oneof)) msg (OneofViewEnumRsName nm oneof)
            (ThunkName nm ctx oneof ''case'')
            (concat (map (\<lambda>f. view_case_lines msg (OneofCaseEnumRsName nm oneof)
                                  (OneofViewEnumRsName nm oneof)
                                  (OneofCaseRsName nm f, RsSafeName nm (name f)))
                       (filter (\<lambda>f. \<not> has_ctype f) (oneof_fields oneof))))
          @ (if accessor_case = VIEW then []
             else getter_mut_lines (RsSafeName nm (oneof_name oneof)) msg
                    (OneofMutEnumRsName nm oneof) (ThunkName nm ctx oneof ''case'')
                    (concat (map (\<lambda>f. mut_case_lines msg (OneofCaseEnumRsName nm oneof)
                                          (OneofMutEnumRsName nm oneof)
                                          (OneofCaseRsName nm f, name f @ ''_mut''))
                               (filter (\<lambda>f. \<not> has_ctype f) (oneof_fields oneof))))))"
proof -
  let ?env = "(''oneof_name'', Text (RsSafeName nm (oneof_name oneof))) #
       (''view_enum_name'', Text (OneofViewEnumRsName nm oneof)) #
       (''mut_enum_name'', Text (OneofMutEnumRsName nm oneof)) #
       (''case_enum_name'', Text (OneofCaseEnumRsName nm oneof)) #
       (''case_thunk'', Text (ThunkName nm ctx oneof ''case'')) # printer_vars ctx"
  have env: "map_of ?env ''Msg'' = Some (Text msg)"
    "map_of ?env ''case_enum_name'' = Some (Text (OneofCaseEnumRsName nm oneof))"
    "map_of ?env ''view_enum_name'' = Some (Text (OneofViewEnumRsName nm oneof))"
    "map_of ?env ''mut_enum_name'' = Some (Text (OneofMutEnumRsName nm oneof))"
    using msg by simp_all
  have vs: "view_cases nm ctx ?env oneof 0 =
     Inr (concat (map (\<lambda>f. view_case_lines msg (OneofCaseEnumRsName nm oneof)
                             (OneofViewEnumRsName nm oneof)
                             (OneofCaseRsName nm f, RsSafeName nm (name f)))
            (filter (\<lambda>f. \<not> has_ctype f) (oneof_fields oneof))))"
    using view_cases_drop[OF assms(1,2) env(1,2,3), of 0] by simp
  have ms: "mut_cases nm ctx ?env oneof 0 =
     Inr (concat (map (\<lambda>f. mut_case_lines msg (OneofCaseEnumRsName nm oneof)
                             (OneofMutEnumRsName nm oneof) (OneofCaseRsName nm f, name f @ ''_mut''))
            (filter (\<lambda>f. \<not> has_ctype f) (oneof_fields oneof))))"
    using mut_cases_drop[OF assms(1) env(1,2,4), of nm ctx 0] by simp
  show ?thesis
    using GenerateOneofAccessors_lines[OF msg vs impI[OF ms], of accessor_case]
    by (simp add: getter_lines_def getter_mut_lines_def)
qed

text \<open>
  Without the hypothesis on the type path: the view loops skip the fields whose view type
  name is empty.
\<close>

lemma view_fields_nonempty:
  assumes "\<forall>f\<in>set (oneof_fields oneof). \<not> has_ctype f \<longrightarrow> rust_field_type f \<noteq> UNLISTED"
  shows "view_fields nm ctx env oneof i =
     Inr (map (\<lambda>f. variant_line
                  (OneofCaseRsName nm f, projr (RsTypeNameView nm ctx f), number f))
            (filter (\<lambda>f. projr (RsTypeNameView nm ctx f) \<noteq> [])
               (drop i (oneof_fields oneof))))"
proof (induction "field_count oneof - i" arbitrary: i)
  case 0
  then show ?case by (subst view_fields.simps) (simp add: field_count_def)
next
  case (Suc k)
  then have lt: "i < length (oneof_fields oneof)" and k: "k = field_count oneof - Suc i"
    by (simp_all add: field_count_def)
  have d: "drop i (oneof_fields oneof) = field oneof i # drop (Suc i) (oneof_fields oneof)"
    using lt by (simp add: field_def Cons_nth_drop_Suc)
  have mem: "field oneof i \<in> set (oneof_fields oneof)"
    using lt by (simp add: field_def)
  from assms mem obtain t where t: "RsTypeNameView nm ctx (field oneof i) = Inr t"
    using RsTypeNameView_total by blast
  show ?case
    by (subst view_fields.simps)
      (simp add: lt field_count_def t Emit_variant_format Suc.hyps(1)[OF k] d variant_line_def)
qed

lemma view_cases_nonempty:
  assumes "\<forall>f\<in>set (oneof_fields oneof). \<not> has_ctype f \<longrightarrow> rust_field_type f \<noteq> UNLISTED"
    and env: "map_of env ''Msg'' = Some (Text msg)"
      "map_of env ''case_enum_name'' = Some (Text ce)"
      "map_of env ''view_enum_name'' = Some (Text ve)"
  shows "view_cases nm ctx env oneof i =
     Inr (concat (map (\<lambda>f. view_case_lines msg ce ve (OneofCaseRsName nm f, RsSafeName nm (name f)))
            (filter (\<lambda>f. projr (RsTypeNameView nm ctx f) \<noteq> [])
               (drop i (oneof_fields oneof)))))"
proof (induction "field_count oneof - i" arbitrary: i)
  case 0
  then show ?case by (subst view_cases.simps) (simp add: field_count_def)
next
  case (Suc k)
  then have lt: "i < length (oneof_fields oneof)" and k: "k = field_count oneof - Suc i"
    by (simp_all add: field_count_def)
  have d: "drop i (oneof_fields oneof) = field oneof i # drop (Suc i) (oneof_fields oneof)"
    using lt by (simp add: field_def Cons_nth_drop_Suc)
  have mem: "field oneof i \<in> set (oneof_fields oneof)"
    using lt by (simp add: field_def)
  from assms(1) mem obtain t where t: "RsTypeNameView nm ctx (field oneof i) = Inr t"
    using RsTypeNameView_total by blast
  show ?case
    by (subst view_cases.simps)
      (simp add: lt field_count_def t Emit_view_case_format[OF env] Suc.hyps(1)[OF k] d)
qed

lemma GenerateOneofDefinition_layout_nonempty:
  assumes "\<forall>f\<in>set (oneof_fields oneof). \<not> has_ctype f \<longrightarrow> rust_field_type f \<noteq> UNLISTED"
  shows "GenerateOneofDefinition nm ctx oneof =
     Inr (view_enum_lines (OneofViewEnumRsName nm oneof)
            (map (\<lambda>f. variant_line
                        (OneofCaseRsName nm f, projr (RsTypeNameView nm ctx f), number f))
               (filter (\<lambda>f. projr (RsTypeNameView nm ctx f) \<noteq> []) (oneof_fields oneof)))
          @ mut_enum_lines (OneofMutEnumRsName nm oneof)
            (map (\<lambda>f. variant_line
                        (OneofCaseRsName nm f, projr (RsTypeNameMut nm ctx f), number f))
               (filter (\<lambda>f. \<not> has_ctype f) (oneof_fields oneof)))
          @ case_enum_lines (OneofCaseEnumRsName nm oneof)
            (map (\<lambda>f. case_line (OneofCaseRsName nm f, number f)) (oneof_fields oneof)))"
  using GenerateOneofDefinition_enums[OF view_fields_nonempty[OF assms, of _ _ _ 0]
      mut_fields_drop[OF assms(1), of _ _ _ 0]]
  by (simp add: layout_defs)

lemma GenerateOneofAccessors_layout_nonempty:
  assumes "\<forall>f\<in>set (oneof_fields oneof). \<not> has_ctype f \<longrightarrow> rust_field_type f \<noteq> UNLISTED"
    and msg: "map_of (printer_vars ctx) ''Msg'' = Some (Text msg)"
  shows "GenerateOneofAccessors nm ctx oneof accessor_case =
     Inr (getter_lines (RsSafeName nm (oneof_name oneof)) msg (OneofViewEnumRsName nm oneof)
            (ThunkName nm ctx oneof ''case'')
            (concat (map (\<lambda>f. view_case_lines msg (OneofCaseEnumRsName nm oneof)
                                  (OneofViewEnumRsName nm oneof)
                                  (OneofCaseRsName nm f, RsSafeName nm (name f)))
                       (filter (\<lambda>f. projr (RsTypeNameView nm ctx f) \<noteq> [])
                          (oneof_fields oneof))))
          @ (if accessor_case = VIEW then []
             else getter_mut_lines (RsSafeName nm (oneof_name oneof)) msg
                    (OneofMutEnumRsName nm oneof) (ThunkName nm ctx oneof ''case'')
                    (concat (map (\<lambda>f. mut_case_lines msg (OneofCaseEnumRsName nm oneof)
                                          (OneofMutEnumRsName nm oneof)
                                          (OneofCaseRsName nm f, name f @ ''_mut''))
                               (filter (\<lambda>f. \<not> has_ctype f) (oneof_fields oneof))))))"
proof -
  let ?env = "(''oneof_name'', Text (RsSafeName nm (oneof_name oneof))) #
       (''view_enum_name'', Text (OneofViewEnumRsName nm oneof)) #
       (''mut_enum_name'', Text (OneofMutEnumRsName nm oneof)) #
       (''case_enum_name'', Text (OneofCaseEnumRsName nm oneof)) #
       (''case_thunk'', Text (ThunkName nm ctx oneof ''case'')) # printer_vars ctx"
  have env: "map_of ?env ''Msg'' = Some (Text msg)"
    "map_of ?env ''case_enum_name'' = Some (Text (OneofCaseEnumRsName nm oneof))"
    "map_of ?env ''view_enum_name'' = Some (Text (OneofViewEnumRsName nm oneof))"
    "map_of ?env ''mut_enum_name'' = Some (Text (OneofMutEnumRsName nm oneof))"
    using msg by simp_all
  have vs: "view_cases nm ctx ?env oneof 0 =
     Inr (concat (map (\<lambda>f. view_case_lines msg (OneofCaseEnumRsName nm oneof)
                             (OneofViewEnumRsName nm oneof)
                             (OneofCaseRsName nm f, RsSafeName nm (name f)))
            (filter (\<lambda>f. projr (RsTypeNameView nm ctx f) \<noteq> []) (oneof_fields oneof))))"
    using view_cases_nonempty[OF assms(1) env(1,2,3), of nm ctx 0] by simp
  have ms: "mut_cases nm ctx ?env oneof 0 =
     Inr (concat (map (\<lambda>f. mut_case_lines msg (OneofCaseEnumRsName nm oneof)
                             (OneofMutEnumRsName nm oneof) (OneofCaseRsName nm f, name f @ ''_mut''))
            (filter (\<lambda>f. \<not> has_ctype f) (oneof_fields oneof))))"
    using mut_cases_drop[OF assms(1) env(1,2,4), of nm ctx 0] by simp
  show ?thesis
    using GenerateOneofAccessors_lines[OF msg vs impI[OF ms], of accessor_case]
    by (simp add: getter_lines_def getter_mut_lines_def)
qed

subsection \<open>What the generators read of the context\<close>

text \<open>
  The loops read the context through \<^verbatim>\<open>RsTypePath\<close> and, for the match arms, through
  the variables \<^verbatim>\<open>$Msg$\<close>, \<^verbatim>\<open>$case_enum_name$\<close> and the enum's own name.
\<close>

lemma Emit_line_env:
  assumes "\<forall>x\<in>set (line_vars ps). map_of env x = map_of env' x"
  shows "Emit_line env ps = Emit_line env' ps"
  using assms
proof (induction ps rule: line_vars.induct)
  case 1
  show ?case by simp
next
  case (2 s ps)
  then show ?case by simp
next
  case (3 x ps)
  then show ?case by (simp split: option.split sub.split)
qed

lemma Emit_env:
  assumes "\<forall>x\<in>set (format_vars fmt). map_of env x = map_of env' x"
  shows "Emit env fmt = Emit env' fmt"
  using assms
proof (induction fmt rule: format_vars.induct)
  case 1
  show ?case by simp
next
  case (2 ps ls)
  then have "Emit_line env ps = Emit_line env' ps" and "Emit env ls = Emit env' ls"
    by (simp_all add: Emit_line_env)
  then show ?case by simp
next
  case (3 x ls)
  then show ?case by (simp split: option.split sub.split)
qed

lemma RsTypeNameView_ctx:
  "RsTypePath nm ctx = RsTypePath nm ctx'
   \<Longrightarrow> RsTypeNameView nm ctx fd = RsTypeNameView nm ctx' fd"
  by (cases "rust_field_type fd") (simp_all add: RsTypeNameView_def)

lemma RsTypeNameMut_ctx:
  "RsTypePath nm ctx = RsTypePath nm ctx'
   \<Longrightarrow> RsTypeNameMut nm ctx fd = RsTypeNameMut nm ctx' fd"
  by (cases "rust_field_type fd") (simp_all add: RsTypeNameMut_def)

lemma view_fields_ctx:
  assumes "RsTypePath nm ctx = RsTypePath nm ctx'"
  shows "view_fields nm ctx env oneof i = view_fields nm ctx' env' oneof i"
proof (induction "field_count oneof - i" arbitrary: i)
  case 0
  then show ?case
    by (simp add: view_fields.simps[of nm ctx env oneof i]
        view_fields.simps[of nm ctx' env' oneof i])
next
  case (Suc k)
  then have k: "k = field_count oneof - Suc i" by simp
  show ?case
    by (simp add: view_fields.simps[of nm ctx env oneof i]
        view_fields.simps[of nm ctx' env' oneof i] RsTypeNameView_ctx[OF assms]
        Emit_variant_format Suc.hyps(1)[OF k] split: sum.split)
qed

lemma mut_fields_ctx:
  assumes "RsTypePath nm ctx = RsTypePath nm ctx'"
  shows "mut_fields nm ctx env oneof i = mut_fields nm ctx' env' oneof i"
proof (induction "field_count oneof - i" arbitrary: i)
  case 0
  then show ?case
    by (simp add: mut_fields.simps[of nm ctx env oneof i]
        mut_fields.simps[of nm ctx' env' oneof i])
next
  case (Suc k)
  then have k: "k = field_count oneof - Suc i" by simp
  show ?case
    by (simp add: mut_fields.simps[of nm ctx env oneof i]
        mut_fields.simps[of nm ctx' env' oneof i] RsTypeNameMut_ctx[OF assms]
        Emit_variant_format Suc.hyps(1)[OF k] split: sum.split)
qed

lemma view_cases_ctx:
  assumes "RsTypePath nm ctx = RsTypePath nm ctx'"
    and env: "map_of env ''Msg'' = map_of env' ''Msg''"
      "map_of env ''case_enum_name'' = map_of env' ''case_enum_name''"
      "map_of env ''view_enum_name'' = map_of env' ''view_enum_name''"
  shows "view_cases nm ctx env oneof i = view_cases nm ctx' env' oneof i"
proof (induction "field_count oneof - i" arbitrary: i)
  case 0
  then show ?case
    by (simp add: view_cases.simps[of nm ctx env oneof i]
        view_cases.simps[of nm ctx' env' oneof i])
next
  case (Suc k)
  then have k: "k = field_count oneof - Suc i" by simp
  have e: "Emit ((''case'', Text c) # (''rs_getter'', Text g) # (''type'', Text t) # env)
             view_case_format
         = Emit ((''case'', Text c) # (''rs_getter'', Text g) # (''type'', Text t) # env')
             view_case_format" for c g t
    by (rule Emit_env) (simp add: view_case_format_def env)
  show ?case
    by (simp add: view_cases.simps[of nm ctx env oneof i]
        view_cases.simps[of nm ctx' env' oneof i] RsTypeNameView_ctx[OF assms(1)]
        e Suc.hyps(1)[OF k] split: sum.split)
qed

lemma mut_cases_ctx:
  assumes "RsTypePath nm ctx = RsTypePath nm ctx'"
    and env: "map_of env ''Msg'' = map_of env' ''Msg''"
      "map_of env ''case_enum_name'' = map_of env' ''case_enum_name''"
      "map_of env ''mut_enum_name'' = map_of env' ''mut_enum_name''"
  shows "mut_cases nm ctx env oneof i = mut_cases nm ctx' env' oneof i"
proof (induction "field_count oneof - i" arbitrary: i)
  case 0
  then show ?case
    by (simp add: mut_cases.simps[of nm ctx env oneof i]
        mut_cases.simps[of nm ctx' env' oneof i])
next
  case (Suc k)
  then have k: "k = field_count oneof - Suc i" by simp
  have e: "Emit ((''case'', Text c) # (''rs_mut_getter'', Text g) # (''type'', Text t) # env)
             mut_case_format
         = Emit ((''case'', Text c) # (''rs_mut_getter'', Text g) # (''type'', Text t) # env')
             mut_case_format" for c g t
    by (rule Emit_env) (simp add: mut_case_format_def env)
  show ?case
    by (simp add: mut_cases.simps[of nm ctx env oneof i]
        mut_cases.simps[of nm ctx' env' oneof i] RsTypeNameMut_ctx[OF assms(1)]
        e Suc.hyps(1)[OF k] split: sum.split)
qed

lemma GenerateOneofDefinition_ctx:
  assumes "RsTypePath nm ctx = RsTypePath nm ctx'"
  shows "GenerateOneofDefinition nm ctx oneof = GenerateOneofDefinition nm ctx' oneof"
proof -
  let ?names = "\<lambda>c. [(''view_enum_name'', Text (OneofViewEnumRsName nm oneof)),
                   (''mut_enum_name'', Text (OneofMutEnumRsName nm oneof))] @ printer_vars c"
  let ?case_names = "\<lambda>c. [(''case_enum_name'', Text (OneofCaseEnumRsName nm oneof))]
                       @ printer_vars c"
  let ?enums = "\<lambda>c. Emit ([(''view_fields'', Callback (view_fields nm c (?names c) oneof 0)),
                      (''mut_fields'', Callback (mut_fields nm c (?names c) oneof 0))] @ ?names c)
                 enums_format"
  let ?case_enum = "\<lambda>c. Emit ([(''cases'', Callback (cases nm c (?case_names c) oneof 0))]
                      @ ?case_names c) case_enum_format"
  have v: "view_fields nm ctx (?names ctx) oneof 0 = view_fields nm ctx' (?names ctx') oneof 0"
    by (rule view_fields_ctx[OF assms])
  have m: "mut_fields nm ctx (?names ctx) oneof 0 = mut_fields nm ctx' (?names ctx') oneof 0"
    by (rule mut_fields_ctx[OF assms])
  have c: "cases nm ctx (?case_names ctx) oneof 0 = cases nm ctx' (?case_names ctx') oneof 0"
    by (simp add: cases_drop)
  have e: "?enums ctx = ?enums ctx'"
    by (rule Emit_env) (use v m in \<open>simp add: enums_format_def\<close>)
  have ce: "?case_enum ctx = ?case_enum ctx'"
    by (rule Emit_env) (use c in \<open>simp add: case_enum_format_def\<close>)
  have unfold: "GenerateOneofDefinition nm c oneof =
      bind (?enums c) (\<lambda>enums. bind (?case_enum c) (\<lambda>case_enum. Inr (enums @ case_enum)))"
    for c
    by (simp only: GenerateOneofDefinition_def Let_def)
  show ?thesis
    unfolding unfold e ce ..
qed

lemma GenerateOneofAccessors_ctx:
  assumes "RsTypePath nm ctx = RsTypePath nm ctx'"
    and "ThunkName nm ctx = ThunkName nm ctx'"
    and msg: "map_of (printer_vars ctx) ''Msg'' = map_of (printer_vars ctx') ''Msg''"
  shows "GenerateOneofAccessors nm ctx oneof accessor_case
           = GenerateOneofAccessors nm ctx' oneof accessor_case"
proof -
  let ?names = "\<lambda>c. [(''oneof_name'', Text (RsSafeName nm (oneof_name oneof))),
                   (''view_enum_name'', Text (OneofViewEnumRsName nm oneof)),
                   (''mut_enum_name'', Text (OneofMutEnumRsName nm oneof)),
                   (''case_enum_name'', Text (OneofCaseEnumRsName nm oneof)),
                   (''case_thunk'', Text (ThunkName nm c oneof ''case''))] @ printer_vars c"
  let ?arms = "\<lambda>c. [(''view_cases'', Callback (view_cases nm c (?names c) oneof 0)),
                  (''mut_cases'', Callback (mut_cases nm c (?names c) oneof 0))] @ ?names c"
  have v: "view_cases nm ctx (?names ctx) oneof 0 = view_cases nm ctx' (?names ctx') oneof 0"
    by (rule view_cases_ctx[OF assms(1)]) (simp_all add: msg)
  have m: "mut_cases nm ctx (?names ctx) oneof 0 = mut_cases nm ctx' (?names ctx') oneof 0"
    by (rule mut_cases_ctx[OF assms(1)]) (simp_all add: msg)
  have g: "Emit (?arms ctx) getter_format = Emit (?arms ctx') getter_format"
    by (rule Emit_env) (use v in \<open>simp add: getter_format_def msg assms(2)\<close>)
  have gm: "Emit (?arms ctx) getter_mut_format = Emit (?arms ctx') getter_mut_format"
    by (rule Emit_env) (use m in \<open>simp add: getter_mut_format_def msg assms(2)\<close>)
  have unfold: "GenerateOneofAccessors nm c oneof accessor_case =
      Emit ([(''getter'', Callback (Emit (?arms c) getter_format)),
             (''getter_mut'', Callback (if accessor_case = VIEW then Inr []
                                        else Emit (?arms c) getter_mut_format))] @ ?arms c)
        [Block ''getter'', Block ''getter_mut'']" for c
    by (simp only: GenerateOneofAccessors_def Let_def)
  show ?thesis
    unfolding unfold g gm
    by (rule Emit_env) simp
qed

lemma GenerateOneofExternC_ctx:
  assumes "ThunkName nm ctx = ThunkName nm ctx'"
    and "map_of (printer_vars ctx) ''Msg'' = map_of (printer_vars ctx') ''Msg''"
    and "map_of (printer_vars ctx) ''pbi'' = map_of (printer_vars ctx') ''pbi''"
  shows "GenerateOneofExternC nm ctx oneof = GenerateOneofExternC nm ctx' oneof"
  unfolding GenerateOneofExternC_def
  by (rule Emit_env) (simp add: assms)

lemma GenerateOneofThunkCc_ctx:
  assumes "ThunkName nm ctx = ThunkName nm ctx'"
  shows "GenerateOneofThunkCc nm ctx oneof = GenerateOneofThunkCc nm ctx' oneof"
  unfolding GenerateOneofThunkCc_def
  by (rule Emit_env) (simp add: assms)

text \<open>A result is appended to whatever the printer holds, and an abort leaves it alone.\<close>

lemma emit_into_again:
  "r = r
   \<and> (\<forall>out out' between.
      emit_into out r = Inr out' \<longrightarrow>
      emit_into (out' @ between) r = Inr (out' @ between @ drop (length out) out'))
   \<and> (\<forall>out other e. emit_into out r = Inl e \<longrightarrow> emit_into other r = Inl e)"
  by (cases r) (auto simp: emit_into_def bind_def)

section \<open>The claims\<close>

text \<open>
  C1: whenever every field without a ctype option has one of the eleven types, the last
  thing \<^verbatim>\<open>GenerateOneofDefinition\<close> prints is the case enum, and its entries are one
  per field of the oneof, with or without a ctype option, in declaration order, each
  \<^verbatim>\<open>Name = number\<close> with the field's own number (the decimal numeral printed stands
  for no other number), followed by \<^verbatim>\<open>not_set = 0\<close>. With the \<^verbatim>\<open>not_set\<close> entry that
  is one more than the fields without a ctype option and the fields with one, taken
  together.
\<close>

theorem case_enum_entries:
  assumes "\<forall>f\<in>set (oneof_fields oneof). \<not> has_ctype f \<longrightarrow> rust_field_type f \<noteq> UNLISTED"
  shows "(\<exists>enums. GenerateOneofDefinition nm ctx oneof =
           Inr (enums @ case_enum_lines (OneofCaseEnumRsName nm oneof)
                  (map (\<lambda>f. case_line (OneofCaseRsName nm f, number f)) (oneof_fields oneof))))
    \<and> (\<forall>f\<in>set (oneof_fields oneof). \<forall>k.
          case_line (OneofCaseRsName nm f, k) = case_line (OneofCaseRsName nm f, number f)
          \<longrightarrow> k = number f)
    \<and> length (map (\<lambda>f. case_line (OneofCaseRsName nm f, number f)) (oneof_fields oneof)) + 1
         = length (filter (\<lambda>f. \<not> has_ctype f) (oneof_fields oneof))
           + length (filter has_ctype (oneof_fields oneof)) + 1"
proof (intro conjI)
  from GenerateOneofDefinition_layout_mut[OF assms, of nm ctx]
  obtain vs where "GenerateOneofDefinition nm ctx oneof =
     Inr (view_enum_lines (OneofViewEnumRsName nm oneof) vs
          @ mut_enum_lines (OneofMutEnumRsName nm oneof)
            (map (\<lambda>f. variant_line
                        (OneofCaseRsName nm f, projr (RsTypeNameMut nm ctx f), number f))
               (filter (\<lambda>f. \<not> has_ctype f) (oneof_fields oneof)))
          @ case_enum_lines (OneofCaseEnumRsName nm oneof)
            (map (\<lambda>f. case_line (OneofCaseRsName nm f, number f)) (oneof_fields oneof)))"
    by blast
  then show "\<exists>enums. GenerateOneofDefinition nm ctx oneof =
           Inr (enums @ case_enum_lines (OneofCaseEnumRsName nm oneof)
                  (map (\<lambda>f. case_line (OneofCaseRsName nm f, number f)) (oneof_fields oneof)))"
    by (intro exI[of _ "view_enum_lines (OneofViewEnumRsName nm oneof) vs
          @ mut_enum_lines (OneofMutEnumRsName nm oneof)
            (map (\<lambda>f. variant_line
                        (OneofCaseRsName nm f, projr (RsTypeNameMut nm ctx f), number f))
               (filter (\<lambda>f. \<not> has_ctype f) (oneof_fields oneof)))"]) simp
  show "\<forall>f\<in>set (oneof_fields oneof). \<forall>k.
          case_line (OneofCaseRsName nm f, k) = case_line (OneofCaseRsName nm f, number f)
          \<longrightarrow> k = number f"
    by (blast intro: case_line_number)
  show "length (map (\<lambda>f. case_line (OneofCaseRsName nm f, number f)) (oneof_fields oneof)) + 1
         = length (filter (\<lambda>f. \<not> has_ctype f) (oneof_fields oneof))
           + length (filter has_ctype (oneof_fields oneof)) + 1"
    using sum_length_filter_compl[of has_ctype "oneof_fields oneof"] by simp
qed

theorem case_enum_entries_witness:
  "(\<exists>enums. GenerateOneofDefinition sample_naming sample_ctx payload =
      Inr (enums @
           [''#[repr(C)]'',
            ''#[derive(Debug, Copy, Clone, PartialEq, Eq)]'',
            ''#[allow(dead_code)]'',
            ''pub(super) enum PayloadCase {'',
            ''Blob = 1,'',
            '''',
            ''#[allow(non_camel_case_types)]'',
            ''not_set = 0'',
            ''}'',
            '''']))
   \<and> length [''Blob = 1,''] + 1 = (0::nat) + 1 + 1"
proof -
  have "\<forall>f\<in>set (oneof_fields payload). \<not> has_ctype f \<longrightarrow> rust_field_type f \<noteq> UNLISTED"
    by (simp add: payload_def blob_def)
  from case_enum_entries[OF this, of sample_naming sample_ctx]
  show ?thesis
    by (simp add: sample_defs layout_defs to_string_samples)
qed

text \<open>
  C2: whenever every field without a ctype option has one of the eleven types and a type
  path that is not empty, the first thing \<^verbatim>\<open>GenerateOneofDefinition\<close> prints is the view
  enum, and its variants are one per field without a ctype option, in declaration order,
  each \<^verbatim>\<open>Name(type) = number\<close> with the type \<^verbatim>\<open>RsTypeNameView\<close> returns for the
  field and the field's own number, followed by
  \<^verbatim>\<open>not_set(std::marker::PhantomData<&'msg ()>) = 0\<close>: one variant more than there are
  such fields. When every field has a ctype option the enum holds \<^verbatim>\<open>not_set\<close> alone.
\<close>

theorem view_enum_variants:
  assumes "\<forall>f\<in>set (oneof_fields oneof). \<not> has_ctype f \<longrightarrow> rust_field_type f \<noteq> UNLISTED"
    and "\<forall>f\<in>set (oneof_fields oneof). \<not> has_ctype f \<longrightarrow> RsTypePath nm ctx f \<noteq> []"
  shows "(\<exists>rest. GenerateOneofDefinition nm ctx oneof =
           Inr (view_enum_lines (OneofViewEnumRsName nm oneof)
                  (map (\<lambda>f. variant_line
                              (OneofCaseRsName nm f, projr (RsTypeNameView nm ctx f), number f))
                     (filter (\<lambda>f. \<not> has_ctype f) (oneof_fields oneof)))
                @ rest))
    \<and> (\<forall>f\<in>set (oneof_fields oneof). \<not> has_ctype f \<longrightarrow>
          RsTypeNameView nm ctx f = Inr (projr (RsTypeNameView nm ctx f)))
    \<and> length (map (\<lambda>f. variant_line
                          (OneofCaseRsName nm f, projr (RsTypeNameView nm ctx f), number f))
                 (filter (\<lambda>f. \<not> has_ctype f) (oneof_fields oneof))) + 1
         = length (filter (\<lambda>f. \<not> has_ctype f) (oneof_fields oneof)) + 1
    \<and> ((\<forall>f\<in>set (oneof_fields oneof). has_ctype f) \<longrightarrow>
          (\<exists>rest. GenerateOneofDefinition nm ctx oneof =
             Inr (view_enum_lines (OneofViewEnumRsName nm oneof) [] @ rest)))"
proof (intro conjI)
  have layout: "GenerateOneofDefinition nm ctx oneof =
     Inr (view_enum_lines (OneofViewEnumRsName nm oneof)
            (map (\<lambda>f. variant_line
                        (OneofCaseRsName nm f, projr (RsTypeNameView nm ctx f), number f))
               (filter (\<lambda>f. \<not> has_ctype f) (oneof_fields oneof)))
          @ (mut_enum_lines (OneofMutEnumRsName nm oneof)
            (map (\<lambda>f. variant_line
                        (OneofCaseRsName nm f, projr (RsTypeNameMut nm ctx f), number f))
               (filter (\<lambda>f. \<not> has_ctype f) (oneof_fields oneof)))
          @ case_enum_lines (OneofCaseEnumRsName nm oneof)
            (map (\<lambda>f. case_line (OneofCaseRsName nm f, number f)) (oneof_fields oneof))))"
    using GenerateOneofDefinition_layout[OF assms] by simp
  then show "\<exists>rest. GenerateOneofDefinition nm ctx oneof =
           Inr (view_enum_lines (OneofViewEnumRsName nm oneof)
                  (map (\<lambda>f. variant_line
                              (OneofCaseRsName nm f, projr (RsTypeNameView nm ctx f), number f))
                     (filter (\<lambda>f. \<not> has_ctype f) (oneof_fields oneof)))
                @ rest)"
    by (rule exI)
  show "\<forall>f\<in>set (oneof_fields oneof). \<not> has_ctype f \<longrightarrow>
          RsTypeNameView nm ctx f = Inr (projr (RsTypeNameView nm ctx f))"
    using assms(1) RsTypeNameView_total[of _ nm ctx] by fastforce
  show "length (map (\<lambda>f. variant_line
                          (OneofCaseRsName nm f, projr (RsTypeNameView nm ctx f), number f))
                 (filter (\<lambda>f. \<not> has_ctype f) (oneof_fields oneof))) + 1
         = length (filter (\<lambda>f. \<not> has_ctype f) (oneof_fields oneof)) + 1"
    by simp
  show "(\<forall>f\<in>set (oneof_fields oneof). has_ctype f) \<longrightarrow>
          (\<exists>rest. GenerateOneofDefinition nm ctx oneof =
             Inr (view_enum_lines (OneofViewEnumRsName nm oneof) [] @ rest))"
  proof
    assume "\<forall>f\<in>set (oneof_fields oneof). has_ctype f"
    then have "filter (\<lambda>f. \<not> has_ctype f) (oneof_fields oneof) = []"
      by (simp add: filter_empty_conv)
    with layout show "\<exists>rest. GenerateOneofDefinition nm ctx oneof =
             Inr (view_enum_lines (OneofViewEnumRsName nm oneof) [] @ rest)"
      by simp
  qed
qed

theorem view_enum_variants_witness:
  "(\<exists>rest. GenerateOneofDefinition sample_naming sample_ctx contact =
      Inr ([''#[non_exhaustive]'',
            ''#[derive(Debug, Clone, Copy)]'',
            ''#[allow(dead_code)]'',
            ''#[repr(isize)]'',
            ''pub enum Contact<'msg> {'',
            ''Email(&'msg ::__pb::ProtoStr) = 3,'',
            ''Phone(i64) = 5,'',
            '''',
            ''#[allow(non_camel_case_types)]'',
            ''not_set(std::marker::PhantomData<&'msg ()>) = 0'',
            ''}'',
            ''''] @ rest))
   \<and> (\<exists>rest. GenerateOneofDefinition sample_naming sample_ctx payload =
      Inr ([''#[non_exhaustive]'',
            ''#[derive(Debug, Clone, Copy)]'',
            ''#[allow(dead_code)]'',
            ''#[repr(isize)]'',
            ''pub enum Payload<'msg> {'',
            '''',
            ''#[allow(non_camel_case_types)]'',
            ''not_set(std::marker::PhantomData<&'msg ()>) = 0'',
            ''}'',
            ''''] @ rest))"
proof -
  have c: "\<forall>f\<in>set (oneof_fields contact). \<not> has_ctype f \<longrightarrow> rust_field_type f \<noteq> UNLISTED"
    "\<forall>f\<in>set (oneof_fields contact). \<not> has_ctype f \<longrightarrow> RsTypePath sample_naming sample_ctx f \<noteq> []"
    by (simp_all add: sample_defs)
  have p: "\<forall>f\<in>set (oneof_fields payload). \<not> has_ctype f \<longrightarrow> rust_field_type f \<noteq> UNLISTED"
    "\<forall>f\<in>set (oneof_fields payload). \<not> has_ctype f \<longrightarrow> RsTypePath sample_naming sample_ctx f \<noteq> []"
    "\<forall>f\<in>set (oneof_fields payload). has_ctype f"
    by (simp_all add: sample_defs)
  from view_enum_variants[OF c] view_enum_variants[OF p(1,2)] p(3)
  show ?thesis
    by (simp add: sample_defs layout_defs to_string_samples RsTypeNameView_def)
qed

text \<open>
  C3, as the code has it: \<^verbatim>\<open>GenerateOneofDefinition\<close> takes the context and the oneof and no
  \<^verbatim>\<open>AccessorCase\<close>, and whenever it returns it has printed the view enum, the mut enum
  with one variant per field without a ctype option, and the case enum, in that order.
  What depends on the \<^verbatim>\<open>AccessorCase\<close> is the mutable accessor: for
  \<^verbatim>\<open>AccessorCase::VIEW\<close> \<^verbatim>\<open>GenerateOneofAccessors\<close> prints the read accessor and nothing
  else, for any other case the same read accessor and then the \<^verbatim>\<open>_mut\<close> accessor.
\<close>

theorem mut_enum_always_emitted:
  assumes "\<forall>f\<in>set (oneof_fields oneof). \<not> has_ctype f \<longrightarrow> rust_field_type f \<noteq> UNLISTED"
    and "map_of (printer_vars ctx) ''Msg'' = Some (Text msg)"
  shows "GenerateOneofDefinition nm ctx oneof =
           Inr (view_enum_lines (OneofViewEnumRsName nm oneof)
                  (map (\<lambda>f. variant_line
                              (OneofCaseRsName nm f, projr (RsTypeNameView nm ctx f), number f))
                     (filter (\<lambda>f. projr (RsTypeNameView nm ctx f) \<noteq> []) (oneof_fields oneof)))
                @ mut_enum_lines (OneofMutEnumRsName nm oneof)
                    (map (\<lambda>f. variant_line
                                (OneofCaseRsName nm f, projr (RsTypeNameMut nm ctx f), number f))
                       (filter (\<lambda>f. \<not> has_ctype f) (oneof_fields oneof)))
                @ case_enum_lines (OneofCaseEnumRsName nm oneof)
                    (map (\<lambda>f. case_line (OneofCaseRsName nm f, number f)) (oneof_fields oneof)))
    \<and> GenerateOneofAccessors nm ctx oneof VIEW =
           Inr (getter_lines (RsSafeName nm (oneof_name oneof)) msg
                  (OneofViewEnumRsName nm oneof) (ThunkName nm ctx oneof ''case'')
                  (concat (map (\<lambda>f. view_case_lines msg (OneofCaseEnumRsName nm oneof)
                                        (OneofViewEnumRsName nm oneof)
                                        (OneofCaseRsName nm f, RsSafeName nm (name f)))
                             (filter (\<lambda>f. projr (RsTypeNameView nm ctx f) \<noteq> [])
                                (oneof_fields oneof)))))
    \<and> (\<forall>accessor_case. accessor_case \<noteq> VIEW \<longrightarrow>
          GenerateOneofAccessors nm ctx oneof accessor_case =
            Inr (getter_lines (RsSafeName nm (oneof_name oneof)) msg
                   (OneofViewEnumRsName nm oneof) (ThunkName nm ctx oneof ''case'')
                   (concat (map (\<lambda>f. view_case_lines msg (OneofCaseEnumRsName nm oneof)
                                         (OneofViewEnumRsName nm oneof)
                                         (OneofCaseRsName nm f, RsSafeName nm (name f)))
                              (filter (\<lambda>f. projr (RsTypeNameView nm ctx f) \<noteq> [])
                                 (oneof_fields oneof))))
                 @ getter_mut_lines (RsSafeName nm (oneof_name oneof)) msg
                     (OneofMutEnumRsName nm oneof) (ThunkName nm ctx oneof ''case'')
                     (concat (map (\<lambda>f. mut_case_lines msg (OneofCaseEnumRsName nm oneof)
                                           (OneofMutEnumRsName nm oneof)
                                           (OneofCaseRsName nm f, name f @ ''_mut''))
                                (filter (\<lambda>f. \<not> has_ctype f) (oneof_fields oneof))))))"
proof (intro conjI allI impI)
  show "GenerateOneofDefinition nm ctx oneof =
           Inr (view_enum_lines (OneofViewEnumRsName nm oneof)
                  (map (\<lambda>f. variant_line
                              (OneofCaseRsName nm f, projr (RsTypeNameView nm ctx f), number f))
                     (filter (\<lambda>f. projr (RsTypeNameView nm ctx f) \<noteq> []) (oneof_fields oneof)))
                @ mut_enum_lines (OneofMutEnumRsName nm oneof)
                    (map (\<lambda>f. variant_line
                                (OneofCaseRsName nm f, projr (RsTypeNameMut nm ctx f), number f))
                       (filter (\<lambda>f. \<not> has_ctype f) (oneof_fields oneof)))
                @ case_enum_lines (OneofCaseEnumRsName nm oneof)
                    (map (\<lambda>f. case_line (OneofCaseRsName nm f, number f)) (oneof_fields oneof)))"
    by (rule GenerateOneofDefinition_layout_nonempty[OF assms(1)])
  show "GenerateOneofAccessors nm ctx oneof VIEW =
           Inr (getter_lines (RsSafeName nm (oneof_name oneof)) msg
                  (OneofViewEnumRsName nm oneof) (ThunkName nm ctx oneof ''case'')
                  (concat (map (\<lambda>f. view_case_lines msg (OneofCaseEnumRsName nm oneof)
                                        (OneofViewEnumRsName nm oneof)
                                        (OneofCaseRsName nm f, RsSafeName nm (name f)))
                             (filter (\<lambda>f. projr (RsTypeNameView nm ctx f) \<noteq> [])
                                (oneof_fields oneof)))))"
    using GenerateOneofAccessors_layout_nonempty[OF assms, of nm VIEW] by simp
next
  fix accessor_case :: AccessorCase
  assume "accessor_case \<noteq> VIEW"
  then show "GenerateOneofAccessors nm ctx oneof accessor_case =
            Inr (getter_lines (RsSafeName nm (oneof_name oneof)) msg
                   (OneofViewEnumRsName nm oneof) (ThunkName nm ctx oneof ''case'')
                   (concat (map (\<lambda>f. view_case_lines msg (OneofCaseEnumRsName nm oneof)
                                         (OneofViewEnumRsName nm oneof)
                                         (OneofCaseRsName nm f, RsSafeName nm (name f)))
                              (filter (\<lambda>f. projr (RsTypeNameView nm ctx f) \<noteq> [])
                                 (oneof_fields oneof))))
                 @ getter_mut_lines (RsSafeName nm (oneof_name oneof)) msg
                     (OneofMutEnumRsName nm oneof) (ThunkName nm ctx oneof ''case'')
                     (concat (map (\<lambda>f. mut_case_lines msg (OneofCaseEnumRsName nm oneof)
                                           (OneofMutEnumRsName nm oneof)
                                           (OneofCaseRsName nm f, name f @ ''_mut''))
                                (filter (\<lambda>f. \<not> has_ctype f) (oneof_fields oneof)))))"
    using GenerateOneofAccessors_layout_nonempty[OF assms, of nm accessor_case] by simp
qed

theorem mut_enum_always_emitted_witness:
  "GenerateOneofDefinition sample_naming sample_ctx payload =
     Inr [''#[non_exhaustive]'',
          ''#[derive(Debug, Clone, Copy)]'',
          ''#[allow(dead_code)]'',
          ''#[repr(isize)]'',
          ''pub enum Payload<'msg> {'',
          '''',
          ''#[allow(non_camel_case_types)]'',
          ''not_set(std::marker::PhantomData<&'msg ()>) = 0'',
          ''}'',
          '''',
          ''#[non_exhaustive]'',
          ''#[derive(Debug)]'',
          ''#[allow(dead_code)]'',
          ''#[repr(isize)]'',
          ''pub enum PayloadMut<'msg> {'',
          '''',
          ''#[allow(non_camel_case_types)]'',
          ''not_set(std::marker::PhantomData<&'msg ()>) = 0'',
          ''}'',
          '''',
          ''#[repr(C)]'',
          ''#[derive(Debug, Copy, Clone, PartialEq, Eq)]'',
          ''#[allow(dead_code)]'',
          ''pub(super) enum PayloadCase {'',
          ''Blob = 1,'',
          '''',
          ''#[allow(non_camel_case_types)]'',
          ''not_set = 0'',
          ''}'',
          '''']
   \<and> GenerateOneofAccessors sample_naming sample_ctx contact VIEW =
     Inr [''pub fn contact(&self) -> Person_::Contact {'',
          ''match unsafe { __rust_proto_thunk__Person_contact_case(self.raw_msg()) } {'',
          ''Person_::ContactCase::Email =>'',
          ''Person_::Contact::Email(self.email()),'',
          ''Person_::ContactCase::Phone =>'',
          ''Person_::Contact::Phone(self.phone()),'',
          ''_ => Person_::Contact::not_set(std::marker::PhantomData)'',
          ''}'',
          ''}'']
   \<and> GenerateOneofAccessors sample_naming sample_ctx contact MUT =
     Inr [''pub fn contact(&self) -> Person_::Contact {'',
          ''match unsafe { __rust_proto_thunk__Person_contact_case(self.raw_msg()) } {'',
          ''Person_::ContactCase::Email =>'',
          ''Person_::Contact::Email(self.email()),'',
          ''Person_::ContactCase::Phone =>'',
          ''Person_::Contact::Phone(self.phone()),'',
          ''_ => Person_::Contact::not_set(std::marker::PhantomData)'',
          ''}'',
          ''}'',
          ''pub fn contact_mut(&mut self) -> Person_::ContactMut {'',
          ''match unsafe { __rust_proto_thunk__Person_contact_case(self.raw_msg()) } {'',
          ''Person_::ContactCase::Email =>'',
          ''Person_::ContactMut::Email('',
          ''self.email_mut().try_into_mut().unwrap()),'',
          ''Person_::ContactCase::Phone =>'',
          ''Person_::ContactMut::Phone('',
          ''self.phone_mut().try_into_mut().unwrap()),'',
          ''_ => Person_::ContactMut::not_set(std::marker::PhantomData)'',
          ''}'',
          ''}'']"
proof -
  have p: "\<forall>f\<in>set (oneof_fields payload). \<not> has_ctype f \<longrightarrow> rust_field_type f \<noteq> UNLISTED"
    and c: "\<forall>f\<in>set (oneof_fields contact). \<not> has_ctype f \<longrightarrow> rust_field_type f \<noteq> UNLISTED"
    and m: "map_of (printer_vars sample_ctx) ''Msg'' = Some (Text ''Person'')"
    and mv: "MUT \<noteq> VIEW"
    by (simp_all add: sample_defs)
  from mut_enum_always_emitted[OF p m, of sample_naming]
    mut_enum_always_emitted[OF c m, of sample_naming] mv
  show ?thesis
    by (simp add: sample_defs layout_defs to_string_samples RsTypeNameView_def
        RsTypeNameMut_def)
qed

theorem mut_enum_gated_counterexample:
  "GenerateOneofDefinition sample_naming sample_ctx contact =
     Inr [''#[non_exhaustive]'',
          ''#[derive(Debug, Clone, Copy)]'',
          ''#[allow(dead_code)]'',
          ''#[repr(isize)]'',
          ''pub enum Contact<'msg> {'',
          ''Email(&'msg ::__pb::ProtoStr) = 3,'',
          ''Phone(i64) = 5,'',
          '''',
          ''#[allow(non_camel_case_types)]'',
          ''not_set(std::marker::PhantomData<&'msg ()>) = 0'',
          ''}'',
          '''',
          ''#[non_exhaustive]'',
          ''#[derive(Debug)]'',
          ''#[allow(dead_code)]'',
          ''#[repr(isize)]'',
          ''pub enum ContactMut<'msg> {'',
          ''Email(::__pb::ProtoStrMut<'msg>) = 3,'',
          ''Phone(::__pb::PrimitiveMut<'msg, i64>) = 5,'',
          '''',
          ''#[allow(non_camel_case_types)]'',
          ''not_set(std::marker::PhantomData<&'msg ()>) = 0'',
          ''}'',
          '''',
          ''#[repr(C)]'',
          ''#[derive(Debug, Copy, Clone, PartialEq, Eq)]'',
          ''#[allow(dead_code)]'',
          ''pub(super) enum ContactCase {'',
          ''Email = 3,'',
          ''Phone = 5,'',
          '''',
          ''#[allow(non_camel_case_types)]'',
          ''not_set = 0'',
          ''}'',
          '''']
   \<and> GenerateOneofAccessors sample_naming sample_ctx contact VIEW =
     Inr [''pub fn contact(&self) -> Person_::Contact {'',
          ''match unsafe { __rust_proto_thunk__Person_contact_case(self.raw_msg()) } {'',
          ''Person_::ContactCase::Email =>'',
          ''Person_::Contact::Email(self.email()),'',
          ''Person_::ContactCase::Phone =>'',
          ''Person_::Contact::Phone(self.phone()),'',
          ''_ => Person_::Contact::not_set(std::marker::PhantomData)'',
          ''}'',
          ''}'']"
proof -
  have c: "\<forall>f\<in>set (oneof_fields contact). \<not> has_ctype f \<longrightarrow> rust_field_type f \<noteq> UNLISTED"
    "\<forall>f\<in>set (oneof_fields contact). \<not> has_ctype f \<longrightarrow> RsTypePath sample_naming sample_ctx f \<noteq> []"
    "map_of (printer_vars sample_ctx) ''Msg'' = Some (Text ''Person'')"
    by (simp_all add: sample_defs)
  from GenerateOneofDefinition_layout[OF c(1,2)] GenerateOneofAccessors_layout[OF c, of VIEW]
  show ?thesis
    by (simp add: sample_defs layout_defs to_string_samples RsTypeNameView_def
        RsTypeNameMut_def)
qed

text \<open>
  C4, as the code has it: let the printer have \<^verbatim>\<open>$Msg$\<close> bound, every field without a
  ctype option have one of the eleven types and a type path that is not empty, and the
  fields of the oneof have pairwise distinct case names and pairwise distinct numbers,
  none of them 0. Then the case enum that \<^verbatim>\<open>GenerateOneofDefinition\<close> prints has the
  entries \<open>enum\<close>, and the read accessor that \<^verbatim>\<open>GenerateOneofAccessors\<close> prints matches
  on the result of the case thunk, a value of that enum, with the arms \<open>arms\<close> and the
  default arm. When the kernel's tag is the number of a field without a ctype option, the
  accessor calls that field's accessor and wraps the result in the variant of the field's
  name; when it is the number of a field with a ctype option, or 0, the accessor yields
  \<^verbatim>\<open>not_set\<close>. Any other integer is no value of the case enum, and the accessor has no
  defined result on it: the default arm does not turn it into \<^verbatim>\<open>not_set\<close>.
\<close>

theorem read_accessor_dispatch:
  assumes "\<forall>f\<in>set (oneof_fields oneof). \<not> has_ctype f \<longrightarrow> rust_field_type f \<noteq> UNLISTED"
    and "\<forall>f\<in>set (oneof_fields oneof). \<not> has_ctype f \<longrightarrow> RsTypePath nm ctx f \<noteq> []"
    and "map_of (printer_vars ctx) ''Msg'' = Some (Text msg)"
    and "distinct (map (OneofCaseRsName nm) (oneof_fields oneof))"
    and "distinct (map number (oneof_fields oneof))"
    and "\<forall>f\<in>set (oneof_fields oneof). number f \<noteq> 0"
    and "enum = map (\<lambda>f. (OneofCaseRsName nm f, number f)) (oneof_fields oneof)"
    and "arms = map (\<lambda>f. (OneofCaseRsName nm f, RsSafeName nm (name f)))
                  (filter (\<lambda>f. \<not> has_ctype f) (oneof_fields oneof))"
  shows "(\<exists>enums. GenerateOneofDefinition nm ctx oneof =
            Inr (enums @ case_enum_lines (OneofCaseEnumRsName nm oneof) (map case_line enum)))
    \<and> (\<exists>getter_mut. GenerateOneofAccessors nm ctx oneof accessor_case =
            Inr (getter_lines (RsSafeName nm (oneof_name oneof)) msg
                   (OneofViewEnumRsName nm oneof) (ThunkName nm ctx oneof ''case'')
                   (concat (map (view_case_lines msg (OneofCaseEnumRsName nm oneof)
                                   (OneofViewEnumRsName nm oneof)) arms))
                 @ getter_mut))
    \<and> (\<forall>f\<in>set (oneof_fields oneof). \<not> has_ctype f \<longrightarrow>
          getter_call enum arms (number f)
            = Some (Variant (OneofCaseRsName nm f) (RsSafeName nm (name f))))
    \<and> (\<forall>f\<in>set (oneof_fields oneof). has_ctype f \<longrightarrow>
          getter_call enum arms (number f) = Some not_set)
    \<and> getter_call enum arms 0 = Some not_set
    \<and> (tag \<notin> number ` set (oneof_fields oneof) \<and> tag \<noteq> 0 \<longrightarrow>
          getter_call enum arms tag = None)"
proof -
  let ?fs = "oneof_fields oneof"
  let ?bs = "filter (\<lambda>f. \<not> has_ctype f) ?fs"
  have injD: "inj_on number (set ?fs)"
    using assms(5) by (simp add: distinct_map)
  have injN: "inj_on (OneofCaseRsName nm) (set ?fs)"
    using assms(4) by (simp add: distinct_map)
  have call: "getter_call enum arms (number f) =
      Some (if \<not> has_ctype f then Variant (OneofCaseRsName nm f) (RsSafeName nm (name f))
            else not_set)"
    if f: "f \<in> set ?fs" for f
  proof -
    have "case_of_tag enum (number f) = Some (FieldCase (OneofCaseRsName nm f))"
      unfolding assms(7) by (rule case_of_tag_field[OF injD f])
    moreover have "getter_match arms (FieldCase (OneofCaseRsName nm f)) =
        (if f \<in> set ?bs then Variant (OneofCaseRsName nm f) (RsSafeName nm (name f))
         else not_set)"
      unfolding assms(8) by (rule getter_match_field[OF injN f]) simp
    ultimately show ?thesis using f by (simp add: getter_call_def)
  qed
  have other: "case_of_tag enum t = (if t = 0 then Some NotSetCase else None)"
    if "t \<notin> number ` set ?fs" for t
    unfolding assms(7) by (rule case_of_tag_other[OF that])
  have zero: "(0::int) \<notin> number ` set ?fs"
    using assms(6) by force
  have "\<exists>enums. GenerateOneofDefinition nm ctx oneof =
            Inr (enums @ case_enum_lines (OneofCaseEnumRsName nm oneof) (map case_line enum))"
    using GenerateOneofDefinition_layout[OF assms(1,2)]
    by (intro exI[of _ "view_enum_lines (OneofViewEnumRsName nm oneof)
            (map (\<lambda>f. variant_line
                        (OneofCaseRsName nm f, projr (RsTypeNameView nm ctx f), number f)) ?bs)
          @ mut_enum_lines (OneofMutEnumRsName nm oneof)
            (map (\<lambda>f. variant_line
                        (OneofCaseRsName nm f, projr (RsTypeNameMut nm ctx f), number f)) ?bs)"])
      (simp add: assms(7) comp_def)
  moreover have "\<exists>getter_mut. GenerateOneofAccessors nm ctx oneof accessor_case =
            Inr (getter_lines (RsSafeName nm (oneof_name oneof)) msg
                   (OneofViewEnumRsName nm oneof) (ThunkName nm ctx oneof ''case'')
                   (concat (map (view_case_lines msg (OneofCaseEnumRsName nm oneof)
                                   (OneofViewEnumRsName nm oneof)) arms))
                 @ getter_mut)"
    using GenerateOneofAccessors_layout[OF assms(1,2,3), of accessor_case]
    by (simp add: assms(8) comp_def)
  moreover have "\<forall>f\<in>set ?fs. \<not> has_ctype f \<longrightarrow>
          getter_call enum arms (number f)
            = Some (Variant (OneofCaseRsName nm f) (RsSafeName nm (name f)))"
    by (simp add: call)
  moreover have "\<forall>f\<in>set ?fs. has_ctype f \<longrightarrow> getter_call enum arms (number f) = Some not_set"
    by (simp add: call)
  moreover have "getter_call enum arms 0 = Some not_set"
    by (simp add: getter_call_def other[OF zero] getter_match_not_set)
  moreover have "tag \<notin> number ` set ?fs \<and> tag \<noteq> 0 \<longrightarrow> getter_call enum arms tag = None"
    by (simp add: getter_call_def other)
  ultimately show ?thesis by blast
qed

theorem read_accessor_dispatch_witness:
  "(\<exists>getter_mut. GenerateOneofAccessors sample_naming sample_ctx contact OWNED =
      Inr ([''pub fn contact(&self) -> Person_::Contact {'',
            ''match unsafe { __rust_proto_thunk__Person_contact_case(self.raw_msg()) } {'',
            ''Person_::ContactCase::Email =>'',
            ''Person_::Contact::Email(self.email()),'',
            ''Person_::ContactCase::Phone =>'',
            ''Person_::Contact::Phone(self.phone()),'',
            ''_ => Person_::Contact::not_set(std::marker::PhantomData)'',
            ''}'',
            ''}''] @ getter_mut))
   \<and> getter_call [(''Email'', 3), (''Phone'', 5)]
        [(''Email'', ''email''), (''Phone'', ''phone'')] 5 = Some (Variant ''Phone'' ''phone'')
   \<and> getter_call [(''Email'', 3), (''Phone'', 5)]
        [(''Email'', ''email''), (''Phone'', ''phone'')] 3 = Some (Variant ''Email'' ''email'')
   \<and> getter_call [(''Email'', 3), (''Phone'', 5)]
        [(''Email'', ''email''), (''Phone'', ''phone'')] 0 = Some not_set
   \<and> getter_call [(''Email'', 3), (''Phone'', 5)]
        [(''Email'', ''email''), (''Phone'', ''phone'')] 1 = None"
proof -
  have c: "\<forall>f\<in>set (oneof_fields contact). \<not> has_ctype f \<longrightarrow> rust_field_type f \<noteq> UNLISTED"
    "\<forall>f\<in>set (oneof_fields contact). \<not> has_ctype f \<longrightarrow> RsTypePath sample_naming sample_ctx f \<noteq> []"
    "map_of (printer_vars sample_ctx) ''Msg'' = Some (Text ''Person'')"
    "distinct (map (OneofCaseRsName sample_naming) (oneof_fields contact))"
    "distinct (map number (oneof_fields contact))"
    "\<forall>f\<in>set (oneof_fields contact). number f \<noteq> 0"
    "[(''Email'', 3), (''Phone'', 5)]
       = map (\<lambda>f. (OneofCaseRsName sample_naming f, number f)) (oneof_fields contact)"
    "[(''Email'', ''email''), (''Phone'', ''phone'')]
       = map (\<lambda>f. (OneofCaseRsName sample_naming f, RsSafeName sample_naming (name f)))
           (filter (\<lambda>f. \<not> has_ctype f) (oneof_fields contact))"
    by (simp_all add: sample_defs)
  from read_accessor_dispatch[OF c, of OWNED 1]
  show ?thesis
    by (simp add: sample_defs layout_defs)
qed

theorem read_accessor_dispatch_counterexample:
  "GenerateOneofDefinition sample_naming sample_ctx contact =
     Inr (view_enum_lines ''Contact''
            [''Email(&'msg ::__pb::ProtoStr) = 3,'', ''Phone(i64) = 5,'']
          @ mut_enum_lines ''ContactMut''
            [''Email(::__pb::ProtoStrMut<'msg>) = 3,'',
             ''Phone(::__pb::PrimitiveMut<'msg, i64>) = 5,'']
          @ [''#[repr(C)]'',
             ''#[derive(Debug, Copy, Clone, PartialEq, Eq)]'',
             ''#[allow(dead_code)]'',
             ''pub(super) enum ContactCase {'',
             ''Email = 3,'',
             ''Phone = 5,'',
             '''',
             ''#[allow(non_camel_case_types)]'',
             ''not_set = 0'',
             ''}'',
             ''''])
   \<and> case_of_tag [(''Email'', 3), (''Phone'', 5)] 1 = None
   \<and> getter_call [(''Email'', 3), (''Phone'', 5)]
        [(''Email'', ''email''), (''Phone'', ''phone'')] 1 \<noteq> Some not_set"
proof -
  have c: "\<forall>f\<in>set (oneof_fields contact). \<not> has_ctype f \<longrightarrow> rust_field_type f \<noteq> UNLISTED"
    "\<forall>f\<in>set (oneof_fields contact). \<not> has_ctype f \<longrightarrow> RsTypePath sample_naming sample_ctx f \<noteq> []"
    by (simp_all add: sample_defs)
  from GenerateOneofDefinition_layout[OF c]
  show ?thesis
    by (simp add: sample_defs variant_line_def case_line_def case_enum_lines_def
        to_string_samples RsTypeNameView_def RsTypeNameMut_def case_of_tag_def getter_call_def)
qed

text \<open>
  C5: let \<^verbatim>\<open>GenerateOneofAccessors\<close> run for an \<^verbatim>\<open>AccessorCase\<close> other than \<^verbatim>\<open>VIEW\<close>,
  with \<^verbatim>\<open>$Msg$\<close> bound, every field without a ctype option of one of the eleven types, and
  pairwise distinct case names. Then the mutable accessor it prints matches on the result
  of the case thunk with the arms \<open>arms\<close>, one per field without a ctype option, each
  calling \<^verbatim>\<open><field>_mut().try_into_mut().unwrap()\<close>. Let the kernel's tag be a value
  of the case enum, 0 or the number of a field, and let the kernel have the field set
  whose number the tag is. Then the call has a defined result, and it is not the panic of
  \<^verbatim>\<open>unwrap()\<close>: with pairwise distinct numbers, it is the variant of the field's name
  around the field's mutator when the tag is the number of a field without a ctype
  option.
\<close>

theorem mut_accessor_unwrap:
  assumes "\<forall>f\<in>set (oneof_fields oneof). \<not> has_ctype f \<longrightarrow> rust_field_type f \<noteq> UNLISTED"
    and "map_of (printer_vars ctx) ''Msg'' = Some (Text msg)"
    and "distinct (map (OneofCaseRsName nm) (oneof_fields oneof))"
    and "accessor_case \<noteq> VIEW"
    and "enum = map (\<lambda>f. (OneofCaseRsName nm f, number f)) (oneof_fields oneof)"
    and "arms = map (\<lambda>f. (OneofCaseRsName nm f, name f @ ''_mut''))
                  (filter (\<lambda>f. \<not> has_ctype f) (oneof_fields oneof))"
    and "tag = 0 \<or> tag \<in> number ` set (oneof_fields oneof)"
    and "\<forall>f\<in>set (oneof_fields oneof). tag = number f \<longrightarrow> present (name f @ ''_mut'')"
  shows "(\<exists>getter. GenerateOneofAccessors nm ctx oneof accessor_case =
            Inr (getter
                 @ getter_mut_lines (RsSafeName nm (oneof_name oneof)) msg
                     (OneofMutEnumRsName nm oneof) (ThunkName nm ctx oneof ''case'')
                     (concat (map (mut_case_lines msg (OneofCaseEnumRsName nm oneof)
                                     (OneofMutEnumRsName nm oneof)) arms))))
    \<and> getter_mut_call enum present arms tag \<noteq> None
    \<and> getter_mut_call enum present arms tag \<noteq> Some unwrap_panic
    \<and> (distinct (map number (oneof_fields oneof)) \<longrightarrow>
        (\<forall>f\<in>set (oneof_fields oneof). \<not> has_ctype f \<and> tag = number f \<longrightarrow>
           getter_mut_call enum present arms tag
             = Some (Variant (OneofCaseRsName nm f) (name f @ ''_mut''))))"
proof (intro conjI impI ballI)
  let ?fs = "oneof_fields oneof"
  let ?bs = "filter (\<lambda>f. \<not> has_ctype f) ?fs"
  have injN: "inj_on (OneofCaseRsName nm) (set ?fs)"
    using assms(3) by (simp add: distinct_map)
  have arm: "getter_mut_match present arms (FieldCase (OneofCaseRsName nm g)) =
        (if g \<in> set ?bs
         then (if present (name g @ ''_mut'')
               then Variant (OneofCaseRsName nm g) (name g @ ''_mut'') else unwrap_panic)
         else not_set)"
    if "g \<in> set ?fs" for g
    unfolding assms(6) by (rule getter_mut_match_field[OF injN that]) simp
  from GenerateOneofAccessors_layout_view[OF assms(1,2), of nm]
  obtain vs where "GenerateOneofAccessors nm ctx oneof accessor_case =
     Inr (getter_lines (RsSafeName nm (oneof_name oneof)) msg (OneofViewEnumRsName nm oneof)
            (ThunkName nm ctx oneof ''case'') vs
          @ (if accessor_case = VIEW then []
             else getter_mut_lines (RsSafeName nm (oneof_name oneof)) msg
                    (OneofMutEnumRsName nm oneof) (ThunkName nm ctx oneof ''case'')
                    (concat (map (\<lambda>f. mut_case_lines msg (OneofCaseEnumRsName nm oneof)
                                          (OneofMutEnumRsName nm oneof)
                                          (OneofCaseRsName nm f, name f @ ''_mut''))
                               (filter (\<lambda>f. \<not> has_ctype f) (oneof_fields oneof))))))"
    by blast
  then show "\<exists>getter. GenerateOneofAccessors nm ctx oneof accessor_case =
            Inr (getter
                 @ getter_mut_lines (RsSafeName nm (oneof_name oneof)) msg
                     (OneofMutEnumRsName nm oneof) (ThunkName nm ctx oneof ''case'')
                     (concat (map (mut_case_lines msg (OneofCaseEnumRsName nm oneof)
                                     (OneofMutEnumRsName nm oneof)) arms)))"
    using assms(4)
    by (intro exI[of _ "getter_lines (RsSafeName nm (oneof_name oneof)) msg
            (OneofViewEnumRsName nm oneof) (ThunkName nm ctx oneof ''case'') vs"])
      (simp add: assms(6) comp_def)
  have defined: "getter_mut_call enum present arms tag \<noteq> None
      \<and> getter_mut_call enum present arms tag \<noteq> Some unwrap_panic"
  proof (cases "tag \<in> number ` set ?fs")
    case True
    from find_entry_some[OF True, of "OneofCaseRsName nm"]
    obtain g where g: "g \<in> set ?fs" "number g = tag"
      and "find (\<lambda>e. snd e = tag) enum = Some (OneofCaseRsName nm g, number g)"
      unfolding assms(5) by blast
    then have v: "case_of_tag enum tag = Some (FieldCase (OneofCaseRsName nm g))"
      by (simp add: case_of_tag_def)
    from g assms(8) have "present (name g @ ''_mut'')" by blast
    with v arm[OF g(1)] show ?thesis
      by (simp add: getter_mut_call_def)
  next
    case False
    with assms(7) have "tag = 0" by blast
    with False have "case_of_tag enum tag = Some NotSetCase"
      unfolding assms(5) by (simp add: case_of_tag_other)
    then show ?thesis
      by (simp add: getter_mut_call_def getter_mut_match_not_set)
  qed
  then show "getter_mut_call enum present arms tag \<noteq> None"
    and "getter_mut_call enum present arms tag \<noteq> Some unwrap_panic"
    by simp_all
  fix f
  assume d: "distinct (map number ?fs)" and f: "f \<in> set ?fs"
    and t: "\<not> has_ctype f \<and> tag = number f"
  have injD: "inj_on number (set ?fs)"
    using d by (simp add: distinct_map)
  have "case_of_tag enum tag = Some (FieldCase (OneofCaseRsName nm f))"
    unfolding assms(5) using t by (simp add: case_of_tag_field[OF injD f])
  moreover have "present (name f @ ''_mut'')"
    using assms(8) f t by blast
  ultimately show "getter_mut_call enum present arms tag
             = Some (Variant (OneofCaseRsName nm f) (name f @ ''_mut''))"
    using arm[OF f] f t by (simp add: getter_mut_call_def)
qed

theorem mut_accessor_unwrap_witness:
  "(\<exists>getter. GenerateOneofAccessors sample_naming sample_ctx contact MUT =
      Inr (getter @
           [''pub fn contact_mut(&mut self) -> Person_::ContactMut {'',
            ''match unsafe { __rust_proto_thunk__Person_contact_case(self.raw_msg()) } {'',
            ''Person_::ContactCase::Email =>'',
            ''Person_::ContactMut::Email('',
            ''self.email_mut().try_into_mut().unwrap()),'',
            ''Person_::ContactCase::Phone =>'',
            ''Person_::ContactMut::Phone('',
            ''self.phone_mut().try_into_mut().unwrap()),'',
            ''_ => Person_::ContactMut::not_set(std::marker::PhantomData)'',
            ''}'',
            ''}'']))
   \<and> getter_mut_call [(''Email'', 3), (''Phone'', 5)] (\<lambda>g. g = ''phone_mut'')
        [(''Email'', ''email_mut''), (''Phone'', ''phone_mut'')] 5
       = Some (Variant ''Phone'' ''phone_mut'')
   \<and> getter_mut_call [(''Email'', 3), (''Phone'', 5)] (\<lambda>g. g = ''phone_mut'')
        [(''Email'', ''email_mut''), (''Phone'', ''phone_mut'')] 3 = Some unwrap_panic
   \<and> getter_mut_call [(''Email'', 3), (''Phone'', 5)] (\<lambda>g. g = ''phone_mut'')
        [(''Email'', ''email_mut''), (''Phone'', ''phone_mut'')] 1 = None"
proof -
  have c: "\<forall>f\<in>set (oneof_fields contact). \<not> has_ctype f \<longrightarrow> rust_field_type f \<noteq> UNLISTED"
    "map_of (printer_vars sample_ctx) ''Msg'' = Some (Text ''Person'')"
    "distinct (map (OneofCaseRsName sample_naming) (oneof_fields contact))"
    "MUT \<noteq> VIEW"
    "[(''Email'', 3), (''Phone'', 5)]
       = map (\<lambda>f. (OneofCaseRsName sample_naming f, number f)) (oneof_fields contact)"
    "[(''Email'', ''email_mut''), (''Phone'', ''phone_mut'')]
       = map (\<lambda>f. (OneofCaseRsName sample_naming f, name f @ ''_mut''))
           (filter (\<lambda>f. \<not> has_ctype f) (oneof_fields contact))"
    "(5::int) = 0 \<or> 5 \<in> number ` set (oneof_fields contact)"
    "\<forall>f\<in>set (oneof_fields contact). 5 = number f \<longrightarrow> (\<lambda>g. g = ''phone_mut'') (name f @ ''_mut'')"
    by (simp_all add: sample_defs)
  have other: "getter_mut_call [(''Email'', 3), (''Phone'', 5)] (\<lambda>g. g = ''phone_mut'')
        [(''Email'', ''email_mut''), (''Phone'', ''phone_mut'')] 3 = Some unwrap_panic"
    "getter_mut_call [(''Email'', 3), (''Phone'', 5)] (\<lambda>g. g = ''phone_mut'')
        [(''Email'', ''email_mut''), (''Phone'', ''phone_mut'')] 1 = None"
    by (simp_all add: getter_mut_call_def case_of_tag_def)
  from mut_accessor_unwrap[OF c] other
  show ?thesis
    by (simp add: sample_defs layout_defs)
qed

text \<open>
  C6: a field with a ctype option (the legacy representation) gets the empty type name,
  which stands for "unsupported", from \<^verbatim>\<open>RsTypeNameView\<close> and from
  \<^verbatim>\<open>RsTypeNameMut\<close> alike. For any other field the view type is: the plain type path
  for the seven numeric and boolean kinds, a borrowed byte slice of lifetime \<^verbatim>\<open>'msg\<close>
  for bytes, a borrowed \<^verbatim>\<open>ProtoStr\<close> of the same lifetime for a string, and a
  \<^verbatim>\<open>View\<close> of the referenced type with that lifetime for a message and for an enum.
\<close>

theorem type_names_of_field:
  "(has_ctype fd \<longrightarrow>
      RsTypeNameView nm ctx fd = Inr '''' \<and> RsTypeNameMut nm ctx fd = Inr '''')
   \<and> (\<not> has_ctype fd \<and> rust_field_type fd \<in> {INT32, INT64, UINT32, UINT64, FLOAT, DOUBLE, BOOL} \<longrightarrow>
      RsTypeNameView nm ctx fd = Inr (RsTypePath nm ctx fd))
   \<and> (\<not> has_ctype fd \<and> rust_field_type fd = BYTES \<longrightarrow>
      RsTypeNameView nm ctx fd = Inr ''&'msg [u8]'')
   \<and> (\<not> has_ctype fd \<and> rust_field_type fd = STRING \<longrightarrow>
      RsTypeNameView nm ctx fd = Inr ''&'msg ::__pb::ProtoStr'')
   \<and> (\<not> has_ctype fd \<and> rust_field_type fd \<in> {MESSAGE, ENUM} \<longrightarrow>
      RsTypeNameView nm ctx fd = Inr (''::__pb::View<'msg, '' @ RsTypePath nm ctx fd @ ''>''))"
  by (auto simp: RsTypeNameView_def RsTypeNameMut_def)

theorem type_names_of_field_witness:
  "RsTypeNameView sample_naming sample_ctx blob = Inr ''''
   \<and> RsTypeNameMut sample_naming sample_ctx blob = Inr ''''
   \<and> RsTypeNameView sample_naming sample_ctx phone = Inr ''i64''
   \<and> RsTypeNameView sample_naming sample_ctx email = Inr ''&'msg ::__pb::ProtoStr''
   \<and> RsTypeNameView sample_naming sample_ctx (blob\<lparr>has_ctype := False\<rparr>) = Inr ''&'msg [u8]''
   \<and> RsTypeNameView sample_naming sample_ctx
        \<lparr>name = ''home'', number = 9, has_ctype = False, rust_field_type = MESSAGE,
         type_name = ''Address''\<rparr> = Inr ''::__pb::View<'msg, crate::Address>''"
  using type_names_of_field[of blob sample_naming sample_ctx]
    type_names_of_field[of phone sample_naming sample_ctx]
    type_names_of_field[of email sample_naming sample_ctx]
    type_names_of_field[of "blob\<lparr>has_ctype := False\<rparr>" sample_naming sample_ctx]
    type_names_of_field[of "\<lparr>name = ''home'', number = 9, has_ctype = False,
      rust_field_type = MESSAGE, type_name = ''Address''\<rparr>" sample_naming sample_ctx]
  by (simp add: sample_defs to_string_samples)

text \<open>
  C7, as the code has it: both functions look at the ctype option before they look at the
  type. For a field without a ctype option whose type is none of the eleven, both abort
  with \<^verbatim>\<open>Unexpected field type\<close>, and so do \<^verbatim>\<open>GenerateOneofDefinition\<close> and
  \<^verbatim>\<open>GenerateOneofAccessors\<close> on every oneof that has such a field. For a field with a
  ctype option both return the empty name, whatever its type. For a field whose type is
  one of the eleven neither aborts, and where that holds of every field of the oneof,
  \<^verbatim>\<open>GenerateOneofDefinition\<close> returns, and so does \<^verbatim>\<open>GenerateOneofAccessors\<close> once the
  printer has \<^verbatim>\<open>$Msg$\<close> bound.
\<close>

theorem kind_outside_closed_set:
  "(\<not> has_ctype fd \<and> rust_field_type fd = UNLISTED \<longrightarrow>
      RsTypeNameView nm ctx fd = Inl (Fatal (''Unexpected field type: '' @ type_name fd))
      \<and> RsTypeNameMut nm ctx fd = Inl (Fatal (''Unexpected field type: '' @ type_name fd)))
   \<and> (fd \<in> set (oneof_fields oneof) \<and> \<not> has_ctype fd \<and> rust_field_type fd = UNLISTED \<longrightarrow>
      isl (GenerateOneofDefinition nm ctx oneof)
      \<and> isl (GenerateOneofAccessors nm ctx oneof accessor_case))
   \<and> (has_ctype fd \<longrightarrow>
      RsTypeNameView nm ctx fd = Inr '''' \<and> RsTypeNameMut nm ctx fd = Inr '''')
   \<and> (rust_field_type fd \<noteq> UNLISTED \<longrightarrow>
      \<not> isl (RsTypeNameView nm ctx fd) \<and> \<not> isl (RsTypeNameMut nm ctx fd))
   \<and> ((\<forall>f\<in>set (oneof_fields oneof). rust_field_type f \<noteq> UNLISTED) \<longrightarrow>
      \<not> isl (GenerateOneofDefinition nm ctx oneof))
   \<and> ((\<forall>f\<in>set (oneof_fields oneof). rust_field_type f \<noteq> UNLISTED)
        \<and> map_of (printer_vars ctx) ''Msg'' = Some (Text msg) \<longrightarrow>
      \<not> isl (GenerateOneofAccessors nm ctx oneof accessor_case))"
proof (intro conjI impI)
  assume "\<not> has_ctype fd \<and> rust_field_type fd = UNLISTED"
  then show "RsTypeNameView nm ctx fd = Inl (Fatal (''Unexpected field type: '' @ type_name fd))"
    and "RsTypeNameMut nm ctx fd = Inl (Fatal (''Unexpected field type: '' @ type_name fd))"
    by (simp_all add: RsTypeNameView_unlisted RsTypeNameMut_unlisted)
next
  assume "fd \<in> set (oneof_fields oneof) \<and> \<not> has_ctype fd \<and> rust_field_type fd = UNLISTED"
  then show "isl (GenerateOneofDefinition nm ctx oneof)"
    and "isl (GenerateOneofAccessors nm ctx oneof accessor_case)"
    by (blast intro: GenerateOneofDefinition_abort GenerateOneofAccessors_abort)+
next
  assume "has_ctype fd"
  then show "RsTypeNameView nm ctx fd = Inr ''''" and "RsTypeNameMut nm ctx fd = Inr ''''"
    by (simp_all add: RsTypeNameView_ctype RsTypeNameMut_ctype)
next
  assume "rust_field_type fd \<noteq> UNLISTED"
  then show "\<not> isl (RsTypeNameView nm ctx fd)" and "\<not> isl (RsTypeNameMut nm ctx fd)"
    by (simp_all add: view_types_total mut_types_total)
next
  assume "\<forall>f\<in>set (oneof_fields oneof). rust_field_type f \<noteq> UNLISTED"
  then show "\<not> isl (GenerateOneofDefinition nm ctx oneof)"
    by (simp add: GenerateOneofDefinition_returns)
next
  assume a: "(\<forall>f\<in>set (oneof_fields oneof). rust_field_type f \<noteq> UNLISTED)
        \<and> map_of (printer_vars ctx) ''Msg'' = Some (Text msg)"
  then have "\<forall>f\<in>set (oneof_fields oneof). \<not> has_ctype f \<longrightarrow> rust_field_type f \<noteq> UNLISTED"
    by simp
  from GenerateOneofAccessors_layout_view[OF this, of ctx msg nm] a
  show "\<not> isl (GenerateOneofAccessors nm ctx oneof accessor_case)"
    by auto
qed

theorem kind_outside_closed_set_witness:
  "RsTypeNameView sample_naming sample_ctx plain_group
     = Inl (Fatal ''Unexpected field type: group'')
   \<and> RsTypeNameMut sample_naming sample_ctx plain_group
     = Inl (Fatal ''Unexpected field type: group'')
   \<and> isl (GenerateOneofDefinition sample_naming sample_ctx plain_choice)
   \<and> isl (GenerateOneofAccessors sample_naming sample_ctx plain_choice OWNED)
   \<and> RsTypeNameView sample_naming sample_ctx blob = Inr ''''
   \<and> RsTypeNameMut sample_naming sample_ctx blob = Inr ''''
   \<and> \<not> isl (RsTypeNameView sample_naming sample_ctx phone)
   \<and> \<not> isl (RsTypeNameMut sample_naming sample_ctx phone)
   \<and> \<not> isl (GenerateOneofDefinition sample_naming sample_ctx contact)
   \<and> \<not> isl (GenerateOneofAccessors sample_naming sample_ctx contact OWNED)"
  using kind_outside_closed_set[of plain_group sample_naming sample_ctx plain_choice OWNED]
    kind_outside_closed_set[of blob sample_naming sample_ctx contact OWNED "''Person''"]
    kind_outside_closed_set[of phone sample_naming sample_ctx contact OWNED "''Person''"]
  by (simp add: sample_defs)

theorem kind_outside_closed_set_counterexample:
  "rust_field_type cord_group = UNLISTED
   \<and> RsTypeNameView sample_naming sample_ctx cord_group = Inr ''''
   \<and> RsTypeNameMut sample_naming sample_ctx cord_group = Inr ''''
   \<and> GenerateOneofDefinition sample_naming sample_ctx legacy_choice =
     Inr [''#[non_exhaustive]'',
          ''#[derive(Debug, Clone, Copy)]'',
          ''#[allow(dead_code)]'',
          ''#[repr(isize)]'',
          ''pub enum LegacyChoice<'msg> {'',
          '''',
          ''#[allow(non_camel_case_types)]'',
          ''not_set(std::marker::PhantomData<&'msg ()>) = 0'',
          ''}'',
          '''',
          ''#[non_exhaustive]'',
          ''#[derive(Debug)]'',
          ''#[allow(dead_code)]'',
          ''#[repr(isize)]'',
          ''pub enum LegacyChoiceMut<'msg> {'',
          '''',
          ''#[allow(non_camel_case_types)]'',
          ''not_set(std::marker::PhantomData<&'msg ()>) = 0'',
          ''}'',
          '''',
          ''#[repr(C)]'',
          ''#[derive(Debug, Copy, Clone, PartialEq, Eq)]'',
          ''#[allow(dead_code)]'',
          ''pub(super) enum LegacyChoiceCase {'',
          ''CordGroup = 7,'',
          '''',
          ''#[allow(non_camel_case_types)]'',
          ''not_set = 0'',
          ''}'',
          '''']
   \<and> GenerateOneofAccessors sample_naming sample_ctx legacy_choice MUT =
     Inr [''pub fn legacy_choice(&self) -> Person_::LegacyChoice {'',
          ''match unsafe { __rust_proto_thunk__Person_legacy_choice_case(self.raw_msg()) } {'',
          ''_ => Person_::LegacyChoice::not_set(std::marker::PhantomData)'',
          ''}'',
          ''}'',
          ''pub fn legacy_choice_mut(&mut self) -> Person_::LegacyChoiceMut {'',
          ''match unsafe { __rust_proto_thunk__Person_legacy_choice_case(self.raw_msg()) } {'',
          ''_ => Person_::LegacyChoiceMut::not_set(std::marker::PhantomData)'',
          ''}'',
          ''}'']"
proof -
  have c: "\<forall>f\<in>set (oneof_fields legacy_choice). \<not> has_ctype f \<longrightarrow> rust_field_type f \<noteq> UNLISTED"
    "\<forall>f\<in>set (oneof_fields legacy_choice). \<not> has_ctype f
        \<longrightarrow> RsTypePath sample_naming sample_ctx f \<noteq> []"
    "map_of (printer_vars sample_ctx) ''Msg'' = Some (Text ''Person'')"
    by (simp_all add: sample_defs)
  from GenerateOneofDefinition_layout[OF c(1,2)] GenerateOneofAccessors_layout[OF c, of MUT]
  show ?thesis
    by (simp add: sample_defs layout_defs to_string_samples RsTypeNameView_def
        RsTypeNameMut_def)
qed

text \<open>
  C8: what a generator prints is decided by the oneof, the \<^verbatim>\<open>AccessorCase\<close> and the
  naming and formatting context, and of that context it reads the naming helpers and the
  variables \<^verbatim>\<open>$Msg$\<close> and \<^verbatim>\<open>$pbi$\<close> only. Let two runs on the same oneof be given
  contexts in which the helpers answer alike and these two variables are bound alike;
  whatever else the printer has bound (the variables a run before has left, under any
  name the formats use) and whatever output it has collected, each of the four generators
  returns the same in both runs: the same text, line for line, or the same abort. So a
  second run appends to the output the very text that the first run appended.
\<close>

theorem generation_is_repeatable:
  assumes "RsTypePath nm ctx = RsTypePath nm ctx'"
    and "ThunkName nm ctx = ThunkName nm ctx'"
    and "map_of (printer_vars ctx) ''Msg'' = map_of (printer_vars ctx') ''Msg''"
    and "map_of (printer_vars ctx) ''pbi'' = map_of (printer_vars ctx') ''pbi''"
  shows "\<forall>(r, r')\<in>{(GenerateOneofDefinition nm ctx oneof, GenerateOneofDefinition nm ctx' oneof),
                  (GenerateOneofAccessors nm ctx oneof accessor_case,
                   GenerateOneofAccessors nm ctx' oneof accessor_case),
                  (GenerateOneofExternC nm ctx oneof, GenerateOneofExternC nm ctx' oneof),
                  (GenerateOneofThunkCc nm ctx oneof, GenerateOneofThunkCc nm ctx' oneof)}.
     r = r'
     \<and> (\<forall>out out' between.
          emit_into out r = Inr out' \<longrightarrow>
          emit_into (out' @ between) r' = Inr (out' @ between @ drop (length out) out'))
     \<and> (\<forall>out other e. emit_into out r = Inl e \<longrightarrow> emit_into other r' = Inl e)"
proof (rule ballI)
  fix p
  assume p: "p \<in> {(GenerateOneofDefinition nm ctx oneof, GenerateOneofDefinition nm ctx' oneof),
                  (GenerateOneofAccessors nm ctx oneof accessor_case,
                   GenerateOneofAccessors nm ctx' oneof accessor_case),
                  (GenerateOneofExternC nm ctx oneof, GenerateOneofExternC nm ctx' oneof),
                  (GenerateOneofThunkCc nm ctx oneof, GenerateOneofThunkCc nm ctx' oneof)}"
  have "GenerateOneofDefinition nm ctx oneof = GenerateOneofDefinition nm ctx' oneof"
    by (rule GenerateOneofDefinition_ctx[OF assms(1)])
  moreover have "GenerateOneofAccessors nm ctx oneof accessor_case
      = GenerateOneofAccessors nm ctx' oneof accessor_case"
    by (rule GenerateOneofAccessors_ctx[OF assms(1,2,3)])
  moreover have "GenerateOneofExternC nm ctx oneof = GenerateOneofExternC nm ctx' oneof"
    by (rule GenerateOneofExternC_ctx[OF assms(2,3,4)])
  moreover have "GenerateOneofThunkCc nm ctx oneof = GenerateOneofThunkCc nm ctx' oneof"
    by (rule GenerateOneofThunkCc_ctx[OF assms(2)])
  ultimately obtain r where r: "p = (r, r)"
    using p by auto
  show "case p of (r, r') \<Rightarrow>
     r = r'
     \<and> (\<forall>out out' between.
          emit_into out r = Inr out' \<longrightarrow>
          emit_into (out' @ between) r' = Inr (out' @ between @ drop (length out) out'))
     \<and> (\<forall>out other e. emit_into out r = Inl e \<longrightarrow> emit_into other r' = Inl e)"
    unfolding r prod.case by (rule emit_into_again)
qed

theorem generation_is_repeatable_witness:
  "GenerateOneofAccessors sample_naming
     \<lparr>printer_vars = [(''case'', Text ''Stale''), (''Msg'', Text ''Person''),
                      (''view_enum_name'', Text ''Other''), (''number'', Text ''99''),
                      (''pbi'', Text ''::__pb::__internal''), (''view_cases'', Text ''stale'')]\<rparr>
     contact VIEW =
     Inr [''pub fn contact(&self) -> Person_::Contact {'',
          ''match unsafe { __rust_proto_thunk__Person_contact_case(self.raw_msg()) } {'',
          ''Person_::ContactCase::Email =>'',
          ''Person_::Contact::Email(self.email()),'',
          ''Person_::ContactCase::Phone =>'',
          ''Person_::Contact::Phone(self.phone()),'',
          ''_ => Person_::Contact::not_set(std::marker::PhantomData)'',
          ''}'',
          ''}'']
   \<and> emit_into
        [''// collected before'',
         ''fn __rust_proto_thunk__Person_contact_case(raw_msg: ::__pb::__internal::RawMessage) -> Person_::ContactCase;'',
         ''// collected between'']
        (GenerateOneofExternC sample_naming
           \<lparr>printer_vars = [(''case'', Text ''Stale''), (''Msg'', Text ''Person''),
                            (''view_enum_name'', Text ''Other''), (''number'', Text ''99''),
                            (''pbi'', Text ''::__pb::__internal''),
                            (''view_cases'', Text ''stale'')]\<rparr>
           contact) =
     Inr [''// collected before'',
          ''fn __rust_proto_thunk__Person_contact_case(raw_msg: ::__pb::__internal::RawMessage) -> Person_::ContactCase;'',
          ''// collected between'',
          ''fn __rust_proto_thunk__Person_contact_case(raw_msg: ::__pb::__internal::RawMessage) -> Person_::ContactCase;'']
   \<and> isl (GenerateOneofDefinition sample_naming
        \<lparr>printer_vars = [(''case'', Text ''Stale''), (''Msg'', Text ''Person''),
                         (''view_enum_name'', Text ''Other''), (''number'', Text ''99''),
                         (''pbi'', Text ''::__pb::__internal''), (''view_cases'', Text ''stale'')]\<rparr>
        plain_choice)"
proof -
  let ?stale = "\<lparr>printer_vars = [(''case'', Text ''Stale''), (''Msg'', Text ''Person''),
                      (''view_enum_name'', Text ''Other''), (''number'', Text ''99''),
                      (''pbi'', Text ''::__pb::__internal''), (''view_cases'', Text ''stale'')]\<rparr>"
  let ?decl = "''fn __rust_proto_thunk__Person_contact_case(raw_msg: ::__pb::__internal::RawMessage) -> Person_::ContactCase;''"
  have h: "RsTypePath sample_naming sample_ctx = RsTypePath sample_naming ?stale"
    "ThunkName sample_naming sample_ctx = ThunkName sample_naming ?stale"
    "map_of (printer_vars sample_ctx) ''Msg'' = map_of (printer_vars ?stale) ''Msg''"
    "map_of (printer_vars sample_ctx) ''pbi'' = map_of (printer_vars ?stale) ''pbi''"
    by (simp_all add: sample_naming_def sample_ctx_def)
  have c: "\<forall>f\<in>set (oneof_fields contact). \<not> has_ctype f \<longrightarrow> rust_field_type f \<noteq> UNLISTED"
    "\<forall>f\<in>set (oneof_fields contact). \<not> has_ctype f \<longrightarrow> RsTypePath sample_naming sample_ctx f \<noteq> []"
    "map_of (printer_vars sample_ctx) ''Msg'' = Some (Text ''Person'')"
    by (simp_all add: sample_defs)
  have first: "GenerateOneofAccessors sample_naming sample_ctx contact VIEW =
     Inr [''pub fn contact(&self) -> Person_::Contact {'',
          ''match unsafe { __rust_proto_thunk__Person_contact_case(self.raw_msg()) } {'',
          ''Person_::ContactCase::Email =>'',
          ''Person_::Contact::Email(self.email()),'',
          ''Person_::ContactCase::Phone =>'',
          ''Person_::Contact::Phone(self.phone()),'',
          ''_ => Person_::Contact::not_set(std::marker::PhantomData)'',
          ''}'',
          ''}'']"
    using GenerateOneofAccessors_layout[OF c, of VIEW]
    by (simp add: sample_defs layout_defs)
  have decl: "emit_into [''// collected before'']
        (GenerateOneofExternC sample_naming sample_ctx contact) =
     Inr [''// collected before'', ?decl]"
    by (simp add: emit_into_def GenerateOneofExternC_def bind_Inr sample_defs)
  have abort: "isl (GenerateOneofDefinition sample_naming sample_ctx plain_choice)"
    by (rule GenerateOneofDefinition_abort[of plain_group]) (simp_all add: sample_defs)
  note run = generation_is_repeatable[OF h]
  have "case (GenerateOneofAccessors sample_naming sample_ctx contact VIEW,
              GenerateOneofAccessors sample_naming ?stale contact VIEW) of
          (r, r') \<Rightarrow> r = r'
     \<and> (\<forall>out out' between.
          emit_into out r = Inr out' \<longrightarrow>
          emit_into (out' @ between) r' = Inr (out' @ between @ drop (length out) out'))
     \<and> (\<forall>out other e. emit_into out r = Inl e \<longrightarrow> emit_into other r' = Inl e)"
    by (rule bspec[OF run[of contact VIEW]]) simp
  then have a: "GenerateOneofAccessors sample_naming ?stale contact VIEW
      = GenerateOneofAccessors sample_naming sample_ctx contact VIEW"
    unfolding prod.case by (elim conjE) (erule sym)
  have "case (GenerateOneofExternC sample_naming sample_ctx contact,
              GenerateOneofExternC sample_naming ?stale contact) of
          (r, r') \<Rightarrow> r = r'
     \<and> (\<forall>out out' between.
          emit_into out r = Inr out' \<longrightarrow>
          emit_into (out' @ between) r' = Inr (out' @ between @ drop (length out) out'))
     \<and> (\<forall>out other e. emit_into out r = Inl e \<longrightarrow> emit_into other r' = Inl e)"
    by (rule bspec[OF run[of contact VIEW]]) simp
  then have "emit_into ([''// collected before'', ?decl] @ [''// collected between''])
        (GenerateOneofExternC sample_naming ?stale contact)
      = Inr ([''// collected before'', ?decl] @ [''// collected between'']
             @ drop (length [''// collected before'']) [''// collected before'', ?decl])"
    unfolding prod.case using decl by blast
  then have e: "emit_into [''// collected before'', ?decl, ''// collected between'']
        (GenerateOneofExternC sample_naming ?stale contact)
      = Inr [''// collected before'', ?decl, ''// collected between'', ?decl]"
    by simp
  have "case (GenerateOneofDefinition sample_naming sample_ctx plain_choice,
              GenerateOneofDefinition sample_naming ?stale plain_choice) of
          (r, r') \<Rightarrow> r = r'
     \<and> (\<forall>out out' between.
          emit_into out r = Inr out' \<longrightarrow>
          emit_into (out' @ between) r' = Inr (out' @ between @ drop (length out) out'))
     \<and> (\<forall>out other e. emit_into out r = Inl e \<longrightarrow> emit_into other r' = Inl e)"
    by (rule bspec[OF run[of plain_choice VIEW]]) simp
  then have d: "GenerateOneofDefinition sample_naming ?stale plain_choice
      = GenerateOneofDefinition sample_naming sample_ctx plain_choice"
    unfolding prod.case by (elim conjE) (erule sym)
  show ?thesis
    unfolding a d first using e abort by simp
qed

text \<open>
  C9: where the printer has \<^verbatim>\<open>$pbi$\<close> and \<^verbatim>\<open>$Msg$\<close> bound,
  \<^verbatim>\<open>GenerateOneofExternC\<close> prints the signature of a function that takes a
  \<^verbatim>\<open>RawMessage\<close> and returns the oneof's case enum, and \<^verbatim>\<open>GenerateOneofThunkCc\<close>
  prints, under the same name \<^verbatim>\<open>ThunkName(ctx, oneof, "case")\<close>, a function that returns
  what the message's own \<^verbatim>\<open><oneof_name>_case()\<close> returns.
\<close>

theorem extern_c_and_thunk:
  assumes "map_of (printer_vars ctx) ''pbi'' = Some (Text pbi)"
    and "map_of (printer_vars ctx) ''Msg'' = Some (Text msg)"
  shows "GenerateOneofExternC nm ctx oneof =
           Inr [''fn '' @ ThunkName nm ctx oneof ''case'' @ ''(raw_msg: '' @ pbi
                  @ ''::RawMessage) -> '' @ msg @ ''_::'' @ OneofCaseEnumRsName nm oneof @ '';'']
         \<and> GenerateOneofThunkCc nm ctx oneof =
           Inr [QualifiedClassName nm (containing_type oneof) @ ''::''
                  @ OneofCaseEnumRsName nm oneof @ '' '' @ ThunkName nm ctx oneof ''case''
                  @ ''('' @ QualifiedClassName nm (containing_type oneof) @ ''* msg) {'',
                ''return msg->'' @ oneof_name oneof @ ''_case();'',
                ''}'']"
  using assms by (simp add: GenerateOneofExternC_def GenerateOneofThunkCc_def bind_Inr)

theorem extern_c_and_thunk_witness:
  "GenerateOneofExternC sample_naming sample_ctx contact =
     Inr [''fn __rust_proto_thunk__Person_contact_case(raw_msg: ::__pb::__internal::RawMessage) -> Person_::ContactCase;'']
   \<and> GenerateOneofThunkCc sample_naming sample_ctx contact =
     Inr [''::Person::ContactCase __rust_proto_thunk__Person_contact_case(::Person* msg) {'',
          ''return msg->contact_case();'',
          ''}'']"
  using extern_c_and_thunk[of sample_ctx "''::__pb::__internal''" "''Person''" sample_naming contact]
  by (simp add: sample_defs to_string_samples)

text \<open>
  C10: whenever every field without a ctype option has one of the eleven types and a type
  path that is not empty, the view enum and the mut enum that
  \<^verbatim>\<open>GenerateOneofDefinition\<close> prints have their variants for the same fields, those
  without a ctype option, under the same names and numbers and in the same order, and
  differ in the payload types alone. Each of the two type names is empty for exactly the
  fields with a ctype option.
\<close>

theorem view_and_mut_variants:
  assumes "\<forall>f\<in>set (oneof_fields oneof). \<not> has_ctype f \<longrightarrow> rust_field_type f \<noteq> UNLISTED"
    and "\<forall>f\<in>set (oneof_fields oneof). \<not> has_ctype f \<longrightarrow> RsTypePath nm ctx f \<noteq> []"
  shows "(\<exists>case_enum. GenerateOneofDefinition nm ctx oneof =
           Inr (view_enum_lines (OneofViewEnumRsName nm oneof)
                  (map (\<lambda>f. variant_line
                              (OneofCaseRsName nm f, projr (RsTypeNameView nm ctx f), number f))
                     (filter (\<lambda>f. \<not> has_ctype f) (oneof_fields oneof)))
                @ mut_enum_lines (OneofMutEnumRsName nm oneof)
                  (map (\<lambda>f. variant_line
                              (OneofCaseRsName nm f, projr (RsTypeNameMut nm ctx f), number f))
                     (filter (\<lambda>f. \<not> has_ctype f) (oneof_fields oneof)))
                @ case_enum))
    \<and> (\<forall>f\<in>set (oneof_fields oneof).
          (RsTypeNameView nm ctx f = Inr [] \<longleftrightarrow> has_ctype f)
          \<and> (RsTypeNameMut nm ctx f = Inr [] \<longleftrightarrow> has_ctype f))"
proof (intro conjI ballI)
  show "\<exists>case_enum. GenerateOneofDefinition nm ctx oneof =
           Inr (view_enum_lines (OneofViewEnumRsName nm oneof)
                  (map (\<lambda>f. variant_line
                              (OneofCaseRsName nm f, projr (RsTypeNameView nm ctx f), number f))
                     (filter (\<lambda>f. \<not> has_ctype f) (oneof_fields oneof)))
                @ mut_enum_lines (OneofMutEnumRsName nm oneof)
                  (map (\<lambda>f. variant_line
                              (OneofCaseRsName nm f, projr (RsTypeNameMut nm ctx f), number f))
                     (filter (\<lambda>f. \<not> has_ctype f) (oneof_fields oneof)))
                @ case_enum)"
    using GenerateOneofDefinition_layout[OF assms] by (rule exI)
next
  fix f assume f: "f \<in> set (oneof_fields oneof)"
  show "RsTypeNameView nm ctx f = Inr [] \<longleftrightarrow> has_ctype f"
  proof (cases "has_ctype f")
    case True
    then show ?thesis by (simp add: RsTypeNameView_ctype)
  next
    case False
    with assms f obtain t where "RsTypeNameView nm ctx f = Inr t" "t \<noteq> []"
      using RsTypeNameView_listed by blast
    with False show ?thesis by simp
  qed
  show "RsTypeNameMut nm ctx f = Inr [] \<longleftrightarrow> has_ctype f"
  proof (cases "has_ctype f")
    case True
    then show ?thesis by (simp add: RsTypeNameMut_ctype)
  next
    case False
    with assms(1) f obtain t where "RsTypeNameMut nm ctx f = Inr t" "t \<noteq> []"
      using RsTypeNameMut_listed by blast
    with False show ?thesis by simp
  qed
qed

theorem view_and_mut_variants_witness:
  "\<exists>case_enum. GenerateOneofDefinition sample_naming sample_ctx contact =
      Inr ([''#[non_exhaustive]'',
            ''#[derive(Debug, Clone, Copy)]'',
            ''#[allow(dead_code)]'',
            ''#[repr(isize)]'',
            ''pub enum Contact<'msg> {'',
            ''Email(&'msg ::__pb::ProtoStr) = 3,'',
            ''Phone(i64) = 5,'',
            '''',
            ''#[allow(non_camel_case_types)]'',
            ''not_set(std::marker::PhantomData<&'msg ()>) = 0'',
            ''}'',
            '''',
            ''#[non_exhaustive]'',
            ''#[derive(Debug)]'',
            ''#[allow(dead_code)]'',
            ''#[repr(isize)]'',
            ''pub enum ContactMut<'msg> {'',
            ''Email(::__pb::ProtoStrMut<'msg>) = 3,'',
            ''Phone(::__pb::PrimitiveMut<'msg, i64>) = 5,'',
            '''',
            ''#[allow(non_camel_case_types)]'',
            ''not_set(std::marker::PhantomData<&'msg ()>) = 0'',
            ''}'',
            ''''] @ case_enum)"
proof -
  have c: "\<forall>f\<in>set (oneof_fields contact). \<not> has_ctype f \<longrightarrow> rust_field_type f \<noteq> UNLISTED"
    "\<forall>f\<in>set (oneof_fields contact). \<not> has_ctype f \<longrightarrow> RsTypePath sample_naming sample_ctx f \<noteq> []"
    by (simp_all add: sample_defs)
  from view_and_mut_variants[OF c]
  show ?thesis
    by (simp add: sample_defs layout_defs to_string_samples RsTypeNameView_def
        RsTypeNameMut_def)
qed

end
